theory Spec2Isabelle
  imports Main
begin

section \<open>Python values, strings and exceptions\<close>

text \<open>
  The assistant is Python glue around a hosted chat model, a SQLite connection, a
  Firestore collection and FAISS indexes. Values that travel between the functions
  (JSON decoded from model replies, rows of a query result, feedback documents) are
  modelled by one datatype. A dictionary is an association list in insertion order
  whose keys are strings; a float is kept as mantissa and binary exponent, which is
  enough for its truth value. Strings are lists of code points below 256.
\<close>

datatype pyval =
    PNone
  | PBool bool
  | PInt int
  | PFloat int int
  | PStr string
  | PList "pyval list"
  | PDict "(string \<times> pyval) list"

type_synonym pydict = "(string \<times> pyval) list"

text \<open>
  An exception is kept with its class and the text \<open>str(e)\<close> gives. An exception of
  a library (the model client, pandas, Firestore, FAISS) carries the name of its class.
\<close>

datatype exn =
    ValueError string
  | TypeError string
  | KeyError string
  | AttributeError string
  | ExternalError string string

fun str_of_exn :: "exn \<Rightarrow> string" where
  "str_of_exn (ValueError m) = m"
| "str_of_exn (TypeError m) = m"
| "str_of_exn (KeyError m) = m"
| "str_of_exn (AttributeError m) = m"
| "str_of_exn (ExternalError c m) = m"

text \<open>Truth value of a Python object, as \<open>if x:\<close>, \<open>x or y\<close> and \<open>not x\<close> read it.\<close>

fun truthy :: "pyval \<Rightarrow> bool" where
  "truthy PNone = False"
| "truthy (PBool b) = b"
| "truthy (PInt n) = (n \<noteq> 0)"
| "truthy (PFloat m e) = (m \<noteq> 0)"
| "truthy (PStr s) = (s \<noteq> [])"
| "truthy (PList xs) = (xs \<noteq> [])"
| "truthy (PDict kvs) = (kvs \<noteq> [])"

text \<open>\<open>x or y\<close>.\<close>

definition py_or :: "pyval \<Rightarrow> pyval \<Rightarrow> pyval" where
  "py_or x y = (if truthy x then x else y)"

text \<open>\<open>d.get(k)\<close> on a dictionary.\<close>

definition dict_get :: "pydict \<Rightarrow> string \<Rightarrow> pyval" where
  "dict_get d k = (case map_of d k of Some v \<Rightarrow> v | None \<Rightarrow> PNone)"

subsection \<open>String helpers\<close>

definition is_digit :: "char \<Rightarrow> bool" where
  "is_digit c = (c \<in> set ''0123456789'')"

text \<open>The characters \<open>str.isspace\<close> and the regular expression class \<open>\s\<close> accept.\<close>

definition is_space :: "char \<Rightarrow> bool" where
  "is_space c = (c \<in> set [CHR 0x09, CHR 0x0A, CHR 0x0B, CHR 0x0C, CHR 0x0D,
                           CHR 0x1C, CHR 0x1D, CHR 0x1E, CHR 0x1F, CHR 0x20,
                           CHR 0x85, CHR 0xA0])"

definition strip :: "string \<Rightarrow> string" where
  "strip s = rev (dropWhile is_space (rev (dropWhile is_space s)))"

definition lower_char :: "char \<Rightarrow> char" where
  "lower_char c =
     (case map_of (zip ''ABCDEFGHIJKLMNOPQRSTUVWXYZ'' ''abcdefghijklmnopqrstuvwxyz'') c of
        Some d \<Rightarrow> d | None \<Rightarrow> c)"

definition lower :: "string \<Rightarrow> string" where
  "lower s = map lower_char s"

text \<open>\<open>s.startswith(p)\<close> and \<open>p in s\<close> on strings.\<close>

fun startswith :: "string \<Rightarrow> string \<Rightarrow> bool" where
  "startswith s [] = True"
| "startswith [] (p # ps) = False"
| "startswith (c # cs) (p # ps) = (c = p \<and> startswith cs ps)"

fun str_contains :: "string \<Rightarrow> string \<Rightarrow> bool" where
  "str_contains p [] = (p = [])"
| "str_contains p (c # cs) = (startswith (c # cs) p \<or> str_contains p cs)"

text \<open>\<open>re.findall(r'\d+', s)\<close>: scanning from the left, the longest run at each digit.\<close>

function re_findall_digits :: "string \<Rightarrow> string list" where
  "re_findall_digits [] = []"
| "re_findall_digits (c # cs) =
     (if is_digit c
      then takeWhile is_digit (c # cs) # re_findall_digits (dropWhile is_digit cs)
      else re_findall_digits cs)"
  by pat_completeness auto
termination
  by (relation "measure length") (auto simp: less_Suc_eq_le length_dropWhile_le)

definition digit_value :: "char \<Rightarrow> int" where
  "digit_value c = int (of_char c) - 48"

definition digits_value :: "string \<Rightarrow> int" where
  "digits_value ds = foldl (\<lambda>acc c. 10 * acc + digit_value c) 0 ds"

text \<open>
  \<open>int(s)\<close> on a string, as CPython 3.11 reads it in base 10. White space at both
  ends is dropped; of the characters below code point 127 only tab, line feed,
  vertical tab, form feed, carriage return and the space count, so the separators
  U+001C to U+001F, which \<open>str.strip\<close> removes, are an error here. One sign may lead.
  Then digits and underscores are scanned: a leading, a trailing or a doubled
  underscore is an error; more digits than the interpreter's limit (4300 unless the
  program changes it, and this one does not) is an error of its own; anything left
  after the scan, or no digit at all, is an error.
\<close>

definition is_int_space :: "char \<Rightarrow> bool" where
  "is_int_space c = (c \<in> set [CHR 0x09, CHR 0x0A, CHR 0x0B, CHR 0x0C, CHR 0x0D, CHR 0x20,
                               CHR 0x85, CHR 0xA0])"

definition int_strip :: "string \<Rightarrow> string" where
  "int_strip s = rev (dropWhile is_int_space (rev (dropWhile is_int_space s)))"

definition int_max_str_digits :: nat where
  "int_max_str_digits = 4300"

fun double_underscore :: "string \<Rightarrow> bool" where
  "double_underscore (c # d # cs) =
     ((c = CHR ''_'' \<and> d = CHR ''_'') \<or> double_underscore (d # cs))"
| "double_underscore cs = False"

datatype parsed = Value int | Malformed | TooManyDigits nat

definition parse_unsigned :: "string \<Rightarrow> parsed" where
  "parse_unsigned body =
     (let scanned = takeWhile (\<lambda>c. is_digit c \<or> c = CHR ''_'') body
      in if (scanned \<noteq> [] \<and> (hd scanned = CHR ''_'' \<or> last scanned = CHR ''_''))
            \<or> double_underscore scanned
         then Malformed
         else if int_max_str_digits < length (filter is_digit scanned)
         then TooManyDigits (length (filter is_digit scanned))
         else if scanned = [] \<or> scanned \<noteq> body then Malformed
         else Value (digits_value (filter is_digit scanned)))"

fun parse_int :: "string \<Rightarrow> parsed" where
  "parse_int [] = Malformed"
| "parse_int (c # cs) =
     (if c = CHR ''-'' then
        (case parse_unsigned cs of Value n \<Rightarrow> Value (- n) | other \<Rightarrow> other)
      else if c = CHR ''+'' then parse_unsigned cs
      else parse_unsigned (c # cs))"

text \<open>The integer a text denotes, if \<open>int\<close> accepts it.\<close>

definition int_literal :: "string \<Rightarrow> int option" where
  "int_literal s = (case parse_int (int_strip s) of Value n \<Rightarrow> Some n | other \<Rightarrow> None)"

text \<open>Decimal text of a natural number, for the message of the limit.\<close>

function show_nat :: "nat \<Rightarrow> string" where
  "show_nat n =
     (if n < 10 then [''0123456789'' ! n]
      else show_nat (n div 10) @ [''0123456789'' ! (n mod 10)])"
  by pat_completeness auto
termination
  by (relation "measure id") auto

text \<open>
  The messages are those of the interpreter for a text without quotes or escapes;
  nothing below reads them.
\<close>

definition int_of_str :: "string \<Rightarrow> exn + int" where
  "int_of_str s =
     (case parse_int (int_strip s) of
        Value n \<Rightarrow> Inr n
      | Malformed \<Rightarrow>
          Inl (ValueError (''invalid literal for int() with base 10: '' @ [CHR 0x27] @ s @ [CHR 0x27]))
      | TooManyDigits d \<Rightarrow>
          Inl (ValueError (''Exceeds the limit (4300 digits) for integer string conversion: '' @
                           ''value has '' @ show_nat d @
                           '' digits; use sys.set_int_max_str_digits() to increase the limit'')))"

text \<open>The results of a list of computations, or the first exception among them.\<close>

fun collect :: "(exn + 'a) list \<Rightarrow> exn + 'a list" where
  "collect [] = Inr []"
| "collect (Inl e # rs) = Inl e"
| "collect (Inr x # rs) = (case collect rs of Inl e \<Rightarrow> Inl e | Inr xs \<Rightarrow> Inr (x # xs))"

section \<open>Truncation before summarisation (agent_router.generate_natural_answer)\<close>

text \<open>
  \<open>k in row\<close> for a string key \<open>k\<close>: key membership on a dictionary, substring test on
  a string, element test on a list, TypeError on anything else.
\<close>

fun py_contains :: "string \<Rightarrow> pyval \<Rightarrow> exn + bool" where
  "py_contains k (PDict kvs) = Inr (k \<in> set (map fst kvs))"
| "py_contains k (PStr s) = Inr (str_contains k s)"
| "py_contains k (PList xs) = Inr (PStr k \<in> set xs)"
| "py_contains k v = Inl (TypeError ''argument is not iterable'')"

text \<open>\<open>row[k]\<close> for a string key \<open>k\<close>.\<close>

fun py_getitem :: "pyval \<Rightarrow> string \<Rightarrow> exn + pyval" where
  "py_getitem (PDict kvs) k =
     (case map_of kvs k of Some v \<Rightarrow> Inr v | None \<Rightarrow> Inl (KeyError k))"
| "py_getitem v k = Inl (TypeError ''indices must be integers'')"

text \<open>\<open>{k: row[k] for k in keys_to_keep if k in row}\<close>; the first exception ends it.\<close>

fun restrict_row :: "string list \<Rightarrow> pyval \<Rightarrow> exn + pydict" where
  "restrict_row [] row = Inr []"
| "restrict_row (k # ks) row =
     (case py_contains k row of
        Inl e \<Rightarrow> Inl e
      | Inr False \<Rightarrow> restrict_row ks row
      | Inr True \<Rightarrow>
          (case py_getitem row k of
             Inl e \<Rightarrow> Inl e
           | Inr v \<Rightarrow>
               (case restrict_row ks row of
                  Inl e \<Rightarrow> Inl e
                | Inr kvs \<Rightarrow> Inr ((k, v) # kvs))))"

text \<open>The list comprehension over the rows.\<close>

fun restrict_rows :: "string list \<Rightarrow> pyval list \<Rightarrow> exn + pydict list" where
  "restrict_rows ks [] = Inr []"
| "restrict_rows ks (row # rows) =
     (case restrict_row ks row of
        Inl e \<Rightarrow> Inl e
      | Inr r \<Rightarrow>
          (case restrict_rows ks rows of
             Inl e \<Rightarrow> Inl e
           | Inr rs \<Rightarrow> Inr (r # rs)))"

text \<open>
  Lines 146 to 153 of agent_router.py. The slice is assigned before anything can
  raise, so an exception in the key selection or in the comprehension leaves the
  list cut to ten entries and otherwise as it was.
\<close>

definition truncate_data :: "pyval \<Rightarrow> pyval" where
  "truncate_data structured_data =
     (case structured_data of
        PList xs \<Rightarrow>
          (case take 10 xs of
             [] \<Rightarrow> PList []
           | first # others \<Rightarrow>
               (case first of
                  PDict kvs \<Rightarrow>
                    (case restrict_rows (take 5 (map fst kvs)) (first # others) of
                       Inr rows \<Rightarrow> PList (map PDict rows)
                     | Inl e \<Rightarrow> PList (first # others))
                | _ \<Rightarrow> PList (first # others)))
      | _ \<Rightarrow> structured_data)"

text \<open>
  What the specification says a row is cut down to: the chosen keys, in their order,
  each with the row's own value, a key the row lacks being left out.
\<close>

definition keep_keys :: "string list \<Rightarrow> pydict \<Rightarrow> pydict" where
  "keep_keys ks row = List.map_filter (\<lambda>k. map_option (Pair k) (map_of row k)) ks"

text \<open>The first five keys of the first row.\<close>

fun keys_to_keep :: "pydict list \<Rightarrow> string list" where
  "keys_to_keep [] = []"
| "keys_to_keep (first # others) = take 5 (map fst first)"

lemma map_of_mem_iff: "(k \<in> fst ` set kvs) = (map_of kvs k \<noteq> None)"
  by (induction kvs) auto

lemma restrict_row_dict: "restrict_row ks (PDict row) = Inr (keep_keys ks row)"
proof (induction ks)
  case Nil
  show ?case by (simp add: keep_keys_def List.map_filter_simps)
next
  case (Cons k ks)
  show ?case
  proof (cases "map_of row k")
    case None
    then have "k \<notin> fst ` set row" by (simp add: map_of_mem_iff)
    with None Cons show ?thesis by (simp add: keep_keys_def List.map_filter_simps)
  next
    case (Some v)
    then have "k \<in> fst ` set row" by (simp add: map_of_mem_iff)
    with Some Cons show ?thesis by (simp add: keep_keys_def List.map_filter_simps)
  qed
qed

lemma restrict_rows_dicts:
  "restrict_rows ks (map PDict rows) = Inr (map (keep_keys ks) rows)"
  by (induction rows) (simp_all add: restrict_row_dict)

lemma keep_keys_fst: "map fst (keep_keys ks row) = filter (\<lambda>k. k \<in> fst ` set row) ks"
  by (induction ks)
     (auto simp: keep_keys_def List.map_filter_simps map_of_mem_iff split: option.splits)

lemma keep_keys_lookup:
  "(k, v) \<in> set (keep_keys ks row) \<Longrightarrow> map_of row k = Some v"
  by (induction ks) (auto simp: keep_keys_def List.map_filter_simps split: option.splits)

lemma truncate_data_dicts:
  "truncate_data (PList (map PDict rows)) =
     PList (map (PDict \<circ> keep_keys (keys_to_keep rows)) (take 10 rows))"
proof (cases rows)
  case Nil
  then show ?thesis by (simp add: truncate_data_def)
next
  case (Cons first others)
  have "restrict_rows (take 5 (map fst first)) (map PDict (take 10 (first # others)))
          = Inr (map (keep_keys (take 5 (map fst first))) (take 10 (first # others)))"
    by (rule restrict_rows_dicts)
  then show ?thesis
    using Cons
    by (simp add: truncate_data_def take_map take_Cons' split: if_splits)
qed


section \<open>The outside world\<close>

text \<open>
  Every decision of the assistant is a call to a hosted service. A call is recorded
  in a trace, and the reply of a service may depend on everything that happened
  before, so the same request can be answered differently the second time. The fixed
  wording of a prompt is left out of a request: a request names the prompt and
  carries the values the code interpolates into it.

  The conversation memory is the dictionary \<open>{q1: .., a1: .., q2: .., ..}\<close> that app.py
  builds from the list of earlier turns; it is represented by that list of
  question and answer pairs, so \<open>len(chat_memory_dict) // 2\<close> is its length, and
  by \<open>None\<close> where a caller passes none.
\<close>

type_synonym memory = "(string \<times> string) list option"

datatype request =
    IsGeneralPrompt string
  | FriendlyReplyPrompt string
  | RoutePrompt "(string \<times> string) list"
  | NaturalAnswerPrompt string pyval
  | SqlPrompt string
  | NeedsContextPrompt string string
  | QueryTypePrompt string
  | FeedbackFocusPrompt string
  | MentionsPrompt string string
  | FilterCodePrompt string
  | TraitSummaryPrompt string "pydict list"
  | FeedbackAnalysisPrompt string string "pydict list"
  | UseHistoryPrompt string
  | PropertyMentionsPrompt string
  | RequestedCountPrompt string
  | ContextAnswerPrompt string string int

text \<open>A handler that \<open>run_query\<close> invokes, with the arguments it is given.\<close>

datatype backend_call =
    CallSql string pyval pyval memory
  | CallFirestore string pyval pyval memory
  | CallFaiss string pyval memory

datatype event =
    LLM request
  | SqlConnect "exn option"
  | SqlExec string "exn option"
  | FirestoreRead string
  | FaissSearch string string
  | EvalFilter string
  | Invoke backend_call

type_synonym trace = "event list"

subsection \<open>Stages of a turn\<close>

text \<open>
  The stage a call belongs to: 0 the small-talk classification, 1 the routing call,
  2 the work of a backend up to its data (its own model calls included), 3 the calls
  that phrase an answer.
\<close>

fun stage :: "event \<Rightarrow> nat" where
  "stage (LLM (IsGeneralPrompt m)) = 0"
| "stage (LLM (RoutePrompt ms)) = 1"
| "stage (LLM (FriendlyReplyPrompt m)) = 3"
| "stage (LLM (NaturalAnswerPrompt q d)) = 3"
| "stage (LLM (TraitSummaryPrompt q d)) = 3"
| "stage (LLM (FeedbackAnalysisPrompt q h d)) = 3"
| "stage (LLM (RequestedCountPrompt q)) = 3"
| "stage (LLM (ContextAnswerPrompt q c n)) = 3"
| "stage ev = 2"

text \<open>The handler invocations of a trace, in order.\<close>

fun invocations :: "trace \<Rightarrow> backend_call list" where
  "invocations [] = []"
| "invocations (Invoke c # evs) = c # invocations evs"
| "invocations (ev # evs) = invocations evs"

text \<open>
  get_sqlite_conn reads the CSV file, connects to the database file and replaces its
  table \<open>real_estate\<close> with the rows of the CSV file (\<open>if_exists="replace"\<close>), on
  every call. A connection that is returned is a table that was rewritten; a call that
  raises may have dropped the old table before it raised. Every call is counted as a
  write to the database file.
\<close>

fun rewrites_table :: "event \<Rightarrow> bool" where
  "rewrites_table (SqlConnect outcome) = True"
| "rewrites_table ev = False"

text \<open>
  Events of the retrieval stage only, none of them an invocation of a handler or a
  rewrite of the table.
\<close>

definition retrieval_events :: "trace \<Rightarrow> bool" where
  "retrieval_events evs =
     (list_all (\<lambda>ev. stage ev = 2 \<and> \<not> rewrites_table ev) evs \<and> invocations evs = [])"

text \<open>Events of the answering stage only.\<close>

definition summary_events :: "trace \<Rightarrow> bool" where
  "summary_events evs = list_all (\<lambda>ev. stage ev = 3) evs"

text \<open>What a handler may add to a trace: retrieval first, answering after it.\<close>

definition handler_events :: "trace \<Rightarrow> bool" where
  "handler_events evs =
     (sorted (map stage evs) \<and> list_all (\<lambda>ev. 2 \<le> stage ev \<and> \<not> rewrites_table ev) evs
      \<and> invocations evs = [])"

record env =
  llm :: "trace \<Rightarrow> request \<Rightarrow> exn + string"
  json_loads :: "string \<Rightarrow> exn + pyval"
  sql_connect :: "trace \<Rightarrow> exn option"
  sql_exec :: "trace \<Rightarrow> string \<Rightarrow> exn + pydict list"
  firestore_stream :: "trace \<Rightarrow> string \<Rightarrow> exn + pydict list"
  faiss_keys :: "string list"
  similarity_search :: "trace \<Rightarrow> string \<Rightarrow> string \<Rightarrow> exn + string list"
  eval_condition :: "trace \<Rightarrow> string \<Rightarrow> pydict list \<Rightarrow> exn + (pydict \<Rightarrow> bool)"
  py_repr :: "pyval \<Rightarrow> string"
  traceback_frames :: "exn \<Rightarrow> string"

text \<open>
  \<open>client.chat.completions.create(...)\<close> followed by
  \<open>response.choices[0].message.content.strip()\<close>, inside one \<open>try\<close>: the stripped
  reply, or the exception.
\<close>

definition chat :: "env \<Rightarrow> request \<Rightarrow> trace \<Rightarrow> (exn + string) \<times> trace" where
  "chat env req tr =
     (case llm env tr req of
        Inl e \<Rightarrow> (Inl e, tr @ [LLM req])
      | Inr content \<Rightarrow> (Inr (strip content), tr @ [LLM req]))"

text \<open>agent_router.generate_natural_answer.\<close>

definition generate_natural_answer :: "env \<Rightarrow> string \<Rightarrow> pyval \<Rightarrow> trace \<Rightarrow> string \<times> trace" where
  "generate_natural_answer env user_question structured_data tr =
     (case chat env (NaturalAnswerPrompt user_question (truncate_data structured_data)) tr of
        (Inr answer, tr1) \<Rightarrow> (answer, tr1)
      | (Inl e, tr1) \<Rightarrow> (''There was an error while generating the final answer.'', tr1))"

lemma snd_chat: "snd (chat env req tr) = tr @ [LLM req]"
  by (simp add: chat_def split: sum.splits)

lemma snd_generate_natural_answer:
  "snd (generate_natural_answer env q d tr) = tr @ [LLM (NaturalAnswerPrompt q (truncate_data d))]"
proof -
  obtain r tr1 where c: "chat env (NaturalAnswerPrompt q (truncate_data d)) tr = (r, tr1)"
    by (cases "chat env (NaturalAnswerPrompt q (truncate_data d)) tr")
  then have "tr1 = tr @ [LLM (NaturalAnswerPrompt q (truncate_data d))]"
    using snd_chat [of env "NaturalAnswerPrompt q (truncate_data d)" tr] by simp
  with c show ?thesis
    by (cases r) (simp_all add: generate_natural_answer_def)
qed

text \<open>
  C10. The data that generate_natural_answer puts into the summarisation request is
  the input cut down: of a list of row dictionaries only the first ten rows are kept,
  and each kept row is restricted to those of the first five keys of the first row
  that the row has, with the row's own values; an input that is not a list goes into
  the request as it is.
\<close>

theorem generate_natural_answer_truncates:
  "snd (generate_natural_answer env q structured_data tr) =
     tr @ [LLM (NaturalAnswerPrompt q (truncate_data structured_data))]
   \<and> truncate_data (PList (map PDict rows)) =
       PList (map (PDict \<circ> keep_keys (keys_to_keep rows)) (take 10 rows))
   \<and> length (take 10 rows) \<le> 10
   \<and> length (keys_to_keep rows) \<le> 5
   \<and> map fst (keep_keys (keys_to_keep rows) row) =
       filter (\<lambda>k. k \<in> fst ` set row) (keys_to_keep rows)
   \<and> truncate_data PNone = PNone
   \<and> truncate_data (PBool b) = PBool b
   \<and> truncate_data (PInt n) = PInt n
   \<and> truncate_data (PFloat m e) = PFloat m e
   \<and> truncate_data (PStr s) = PStr s
   \<and> truncate_data (PDict kvs) = PDict kvs"
proof -
  have five: "length (keys_to_keep rows) \<le> 5"
    by (cases rows) simp_all
  have others: "truncate_data PNone = PNone" "truncate_data (PBool b) = PBool b"
    "truncate_data (PInt n) = PInt n" "truncate_data (PFloat m e) = PFloat m e"
    "truncate_data (PStr s) = PStr s" "truncate_data (PDict kvs) = PDict kvs"
    by (simp_all add: truncate_data_def)
  show ?thesis
    using five others
    by (simp add: snd_generate_natural_answer truncate_data_dicts keep_keys_fst)
qed

theorem generate_natural_answer_truncates_witness:
  "truncate_data (PList (map PDict
      [[(''city'', PStr ''Avon''), (''beds'', PInt 2), (''baths'', PInt 3), (''days'', PInt 4),
        (''agent_id'', PInt 5), (''house_id'', PInt 6)],
       [(''house_id'', PInt 7), (''city'', PStr ''Kent'')],
       [], [], [], [], [], [], [], [], [(''city'', PStr ''Derby'')]]))
   = PList [PDict [(''city'', PStr ''Avon''), (''beds'', PInt 2), (''baths'', PInt 3),
                   (''days'', PInt 4), (''agent_id'', PInt 5)],
            PDict [(''city'', PStr ''Kent'')],
            PDict [], PDict [], PDict [], PDict [], PDict [], PDict [], PDict [], PDict []]
   \<and> truncate_data (PStr ''no rows'') = PStr ''no rows''"
  using generate_natural_answer_truncates
    [where rows = "[[(''city'', PStr ''Avon''), (''beds'', PInt 2), (''baths'', PInt 3),
                     (''days'', PInt 4), (''agent_id'', PInt 5), (''house_id'', PInt 6)],
                    [(''house_id'', PInt 7), (''city'', PStr ''Kent'')],
                    [], [], [], [], [], [], [], [], [(''city'', PStr ''Derby'')]]"
       and s = "''no rows''"]
  by (simp add: keep_keys_def)


section \<open>The tabular backend (text_to_sql.py)\<close>

text \<open>
  The text of the conversation so far, as needs_chat_context and handle_user_question
  build it: one block \<open>User: q\<newline>Assistant: a\<close> for each earlier turn, joined by newlines.
\<close>

definition memory_block :: "string \<times> string \<Rightarrow> string" where
  "memory_block qa = ''User: '' @ fst qa @ ''\<newline>Assistant: '' @ snd qa"

fun join_lines :: "string list \<Rightarrow> string" where
  "join_lines [] = []"
| "join_lines [x] = x"
| "join_lines (x # y # zs) = x @ ''\<newline>'' @ join_lines (y # zs)"

definition memory_text :: "(string \<times> string) list \<Rightarrow> string" where
  "memory_text turns = join_lines (map memory_block turns)"

text \<open>\<open>not chat_memory_dict\<close>: no dictionary, or an empty one.\<close>

fun no_memory :: "memory \<Rightarrow> bool" where
  "no_memory None = True"
| "no_memory (Some turns) = (turns = [])"

text \<open>The turns of a memory that is there (only read where \<open>no_memory\<close> is false).\<close>

fun turns_of :: "memory \<Rightarrow> (string \<times> string) list" where
  "turns_of None = []"
| "turns_of (Some turns) = turns"

text \<open>The request that replaces the question once a query has failed (lines 53 to 57).\<close>

definition regeneration_request :: "string \<Rightarrow> string \<Rightarrow> string" where
  "regeneration_request previous_query error_msg =
     ''The following SQL query gave an error:\<newline>\<newline>'' @ previous_query @
     ''\<newline>\<newline>The error was:\<newline>'' @ error_msg @
     ''\<newline>\<newline>Please fix and return a valid query using proper column aliases.''"

text \<open>
  Lines 51 to 57: with an error message and a previous query, both non-empty, the
  request is about them and the question is dropped.
\<close>

fun sql_request :: "string \<Rightarrow> string option \<Rightarrow> string option \<Rightarrow> string" where
  "sql_request user_question (Some previous_query) (Some error_msg) =
     (if error_msg \<noteq> [] \<and> previous_query \<noteq> []
      then regeneration_request previous_query error_msg
      else user_question)"
| "sql_request user_question previous_query error_msg = user_question"

definition generate_sql_query ::
  "env \<Rightarrow> string \<Rightarrow> string option \<Rightarrow> string option \<Rightarrow> trace \<Rightarrow> string \<times> trace" where
  "generate_sql_query env user_question previous_query error_msg tr =
     (case chat env (SqlPrompt (sql_request user_question previous_query error_msg)) tr of
        (Inr query, tr1) \<Rightarrow> (query, tr1)
      | (Inl e, tr1) \<Rightarrow> ([], tr1))"

definition needs_chat_context :: "env \<Rightarrow> string \<Rightarrow> memory \<Rightarrow> trace \<Rightarrow> bool \<times> trace" where
  "needs_chat_context env question chat_memory_dict tr =
     (if no_memory chat_memory_dict then (False, tr)
      else case chat env (NeedsContextPrompt (memory_text (turns_of chat_memory_dict)) question) tr of
             (Inr result, tr1) \<Rightarrow> (lower result = ''yes'', tr1)
           | (Inl e, tr1) \<Rightarrow> (False, tr1))"

text \<open>
  \<open>traceback.format_exc()\<close> inside the handler. The text starts with the header
  line and ends with the line that names the exception, its class and \<open>str(e)\<close>;
  what stands between them (the stack frames and, for a chained exception, the earlier
  tracebacks) is the interpreter's, a parameter of the environment. It is never empty.
\<close>

fun exn_name :: "exn \<Rightarrow> string" where
  "exn_name (ValueError m) = ''ValueError''"
| "exn_name (TypeError m) = ''TypeError''"
| "exn_name (KeyError m) = ''KeyError''"
| "exn_name (AttributeError m) = ''AttributeError''"
| "exn_name (ExternalError c m) = c"

definition format_exc :: "env \<Rightarrow> exn \<Rightarrow> string" where
  "format_exc env e =
     ''Traceback (most recent call last):\<newline>'' @ traceback_frames env e @
     exn_name e @ '': '' @ str_of_exn e @ ''\<newline>''"

text \<open>\<open>sql_query.strip().lower().startswith(("select", "with"))\<close>.\<close>

definition looks_like_sql :: "string \<Rightarrow> bool" where
  "looks_like_sql sql_query =
     (startswith (lower (strip sql_query)) ''select'' \<or> startswith (lower (strip sql_query)) ''with'')"

definition capability_message :: string where
  "capability_message =
     ''I can help you analyze your property data. '' @
     ''I have access to sales data (CSV), customer and agent feedback (JSON), and property descriptions (PDFs). '' @
     ''Let me know what insights you're looking for.''"

text \<open>
  The \<open>while\<close> loop of handle_user_question (lines 135 to 166), started with the
  values its local variables have at that point. Besides the value the function
  returns it gives back the final value of the counter \<open>attempt\<close>. The connection
  is the one of the environment. A result frame is empty when it has no rows.
\<close>

function sql_retry_loop ::
  "env \<Rightarrow> string \<Rightarrow> int \<Rightarrow> int \<Rightarrow> string option \<Rightarrow> string option \<Rightarrow> trace
     \<Rightarrow> pyval \<times> int \<times> trace" where
  "sql_retry_loop env user_question max_retries attempt sql_query error_msg tr =
     (if attempt < max_retries then
        (case generate_sql_query env user_question sql_query error_msg tr of
           (query, tr1) \<Rightarrow>
             if query = [] then (PStr ''Failed to generate SQL.'', attempt, tr1)
             else if \<not> looks_like_sql query then (PStr capability_message, attempt, tr1)
             else
               (case sql_exec env tr1 query of
                  Inr rows \<Rightarrow>
                    (if rows \<noteq> [] then PList (map PDict rows) else PNone,
                     attempt, tr1 @ [SqlExec query None])
                | Inl e \<Rightarrow>
                    sql_retry_loop env user_question max_retries (attempt + 1)
                      (Some query) (Some (format_exc env e)) (tr1 @ [SqlExec query (Some e)])))
      else (PNone, attempt, tr))"
  by pat_completeness auto
termination
  by (relation "measure (\<lambda>(env, uq, max_retries, attempt, q, e, tr). nat (max_retries - attempt))")
     auto

text \<open>
  \<open>str(x)\<close> inside an f-string: a string is itself; the text of any other value is
  the interpreter's, a parameter of the environment.
\<close>

definition format_value :: "env \<Rightarrow> pyval \<Rightarrow> string" where
  "format_value env v = (case v of PStr s \<Rightarrow> s | _ \<Rightarrow> py_repr env v)"

text \<open>Lines 121 to 133: the question as it is handed to the loop.\<close>

definition prepare_question ::
  "env \<Rightarrow> bool \<Rightarrow> string \<Rightarrow> pyval \<Rightarrow> pyval \<Rightarrow> memory \<Rightarrow> string" where
  "prepare_question env use_memory user_question property_mention agent_mention chat_memory_dict =
     (let q1 = (if use_memory
                then ''Conversation so far:\<newline>'' @ memory_text (turns_of chat_memory_dict) @
                     ''\<newline>\<newline>Now answer this: '' @ user_question
                else user_question);
          q2 = (if truthy property_mention
                then ''The user is referring to '' @ format_value env property_mention @ ''. '' @ q1
                else q1)
      in if truthy agent_mention
         then ''The user is referring to '' @ format_value env agent_mention @ ''. '' @ q2
         else q2)"


text \<open>text_to_sql.handle_user_question; \<open>max_retries\<close> is 3 unless the caller says otherwise.\<close>

definition handle_user_question ::
  "env \<Rightarrow> string \<Rightarrow> pyval \<Rightarrow> pyval \<Rightarrow> memory \<Rightarrow> int \<Rightarrow> trace \<Rightarrow> pyval \<times> trace" where
  "handle_user_question env user_question property_mention agent_mention chat_memory_dict
       max_retries tr =
     (case needs_chat_context env user_question chat_memory_dict tr of
        (use_memory, tr1) \<Rightarrow>
          (case sql_retry_loop env
                  (prepare_question env use_memory user_question property_mention agent_mention
                     chat_memory_dict)
                  max_retries 0 None None tr1 of
             (result, attempt, tr2) \<Rightarrow> (result, tr2)))"

subsection \<open>What a trace shows of the loop\<close>

fun is_exec :: "event \<Rightarrow> bool" where
  "is_exec (SqlExec q r) = True"
| "is_exec ev = False"

fun is_failed_exec :: "event \<Rightarrow> bool" where
  "is_failed_exec (SqlExec q (Some e)) = True"
| "is_failed_exec ev = False"

fun is_sql_generation :: "event \<Rightarrow> bool" where
  "is_sql_generation (LLM (SqlPrompt p)) = True"
| "is_sql_generation ev = False"

text \<open>
  Whatever follows a failed execution is the regeneration request made of the failed
  query and the traceback of its error.
\<close>

fun regenerations_chained :: "env \<Rightarrow> trace \<Rightarrow> bool" where
  "regenerations_chained env (SqlExec q (Some e) # ev # rest) =
     (ev = LLM (SqlPrompt (regeneration_request q (format_exc env e)))
      \<and> regenerations_chained env (ev # rest))"
| "regenerations_chained env (ev # rest) = regenerations_chained env rest"
| "regenerations_chained env [] = True"


text \<open>The queries handed to \<open>pd.read_sql_query\<close>, in order.\<close>

fun executed :: "trace \<Rightarrow> string list" where
  "executed [] = []"
| "executed (SqlExec q r # evs) = q # executed evs"
| "executed (ev # evs) = executed evs"

declare sql_retry_loop.simps [simp del]

lemma generate_sql_query_trace:
  "generate_sql_query env uq pq em tr = (q, tr1) \<Longrightarrow>
   tr1 = tr @ [LLM (SqlPrompt (sql_request uq pq em))]"
  using snd_chat [of env "SqlPrompt (sql_request uq pq em)" tr]
  by (auto simp: generate_sql_query_def split: prod.splits sum.splits)

lemma format_exc_nonempty: "format_exc env e \<noteq> []"
  by (simp add: format_exc_def)

lemma needs_chat_context_trace:
  "needs_chat_context env q mem tr = (u, tr1) \<Longrightarrow>
   tr1 = tr \<or> tr1 = tr @ [LLM (NeedsContextPrompt (memory_text (turns_of mem)) q)]"
  using snd_chat [of env "NeedsContextPrompt (memory_text (turns_of mem)) q" tr]
  by (auto simp: needs_chat_context_def split: if_splits prod.splits sum.splits)

text \<open>
  The events one run of the loop adds, by induction on its iterations: the counter
  grows by the number of failed executions, executions and generations are bounded by
  the attempts that were left, the first request is made of the loop's current
  variables, and the loop ends with \<open>None\<close> once the counter reaches the maximum.
\<close>

lemma sql_retry_loop_trace:
  "sql_retry_loop env uq mr a sq em tr = (res, a', tr') \<Longrightarrow>
   \<exists>evs. tr' = tr @ evs
     \<and> a' = a + int (length (filter is_failed_exec evs))
     \<and> int (length (filter is_exec evs)) \<le> max 0 (mr - a)
     \<and> int (length (filter is_sql_generation evs)) \<le> max 0 (mr - a)
     \<and> (case evs of [] \<Rightarrow> True | ev # rest \<Rightarrow> ev = LLM (SqlPrompt (sql_request uq sq em)))
     \<and> regenerations_chained env evs
     \<and> (mr \<le> a' \<longrightarrow> res = PNone)
     \<and> list_all looks_like_sql (executed evs)
     \<and> retrieval_events evs
     \<and> (length (filter is_failed_exec evs) = length (filter is_exec evs)
          \<longrightarrow> res = PNone \<or> res = PStr ''Failed to generate SQL.''
              \<or> res = PStr capability_message)
     \<and> (a' < mr \<longrightarrow> evs \<noteq> [] \<and> \<not> is_failed_exec (last evs))"
proof (induction env uq mr a sq em tr arbitrary: res a' tr' rule: sql_retry_loop.induct)
  case (1 env uq mr a sq em tr)
  show ?case
  proof (cases "a < mr")
    case False
    with "1.prems" show ?thesis
      by (simp add: sql_retry_loop.simps retrieval_events_def)
  next
    case True
    obtain q tr1 where g: "generate_sql_query env uq sq em tr = (q, tr1)"
      by (cases "generate_sql_query env uq sq em tr")
    then have tr1: "tr1 = tr @ [LLM (SqlPrompt (sql_request uq sq em))]"
      by (rule generate_sql_query_trace)
    show ?thesis
    proof (cases "q = [] \<or> \<not> looks_like_sql q")
      case True
      with \<open>a < mr\<close> g "1.prems" tr1 show ?thesis
        by (auto simp: sql_retry_loop.simps retrieval_events_def split: if_splits)
    next
      case ok: False
      show ?thesis
      proof (cases "sql_exec env tr1 q")
        case (Inr rows)
        with \<open>a < mr\<close> g "1.prems" tr1 ok show ?thesis
          by (auto simp: sql_retry_loop.simps retrieval_events_def split: if_splits)
      next
        case (Inl e)
        with \<open>a < mr\<close> g ok "1.prems"
        have again: "sql_retry_loop env uq mr (a + 1) (Some q) (Some (format_exc env e))
                     (tr1 @ [SqlExec q (Some e)]) = (res, a', tr')"
          by (simp add: sql_retry_loop.simps)
        from "1.IH" [OF \<open>a < mr\<close> g [symmetric] _ _ Inl again] ok
        obtain evs where evs:
          "tr' = (tr1 @ [SqlExec q (Some e)]) @ evs"
          "a' = a + 1 + int (length (filter is_failed_exec evs))"
          "int (length (filter is_exec evs)) \<le> max 0 (mr - (a + 1))"
          "int (length (filter is_sql_generation evs)) \<le> max 0 (mr - (a + 1))"
          "case evs of [] \<Rightarrow> True
           | ev # rest \<Rightarrow> ev = LLM (SqlPrompt (sql_request uq (Some q) (Some (format_exc env e))))"
          "regenerations_chained env evs"
          "mr \<le> a' \<longrightarrow> res = PNone"
          "list_all looks_like_sql (executed evs)"
          "retrieval_events evs"
          "length (filter is_failed_exec evs) = length (filter is_exec evs)
             \<longrightarrow> res = PNone \<or> res = PStr ''Failed to generate SQL.''
                 \<or> res = PStr capability_message"
          "a' < mr \<longrightarrow> evs \<noteq> [] \<and> \<not> is_failed_exec (last evs)"
          by auto
        have req: "sql_request uq (Some q) (Some (format_exc env e))
                     = regeneration_request q (format_exc env e)"
          using ok by (simp add: format_exc_nonempty)
        have chain: "regenerations_chained env (SqlExec q (Some e) # evs)"
          using evs(5,6) req by (cases evs) simp_all
        let ?all = "LLM (SqlPrompt (sql_request uq sq em)) # SqlExec q (Some e) # evs"
        have "tr' = tr @ ?all" using evs(1) tr1 by simp
        moreover have "a' = a + int (length (filter is_failed_exec ?all))" using evs(2) by simp
        moreover have "int (length (filter is_exec ?all)) \<le> max 0 (mr - a)"
          using evs(3) \<open>a < mr\<close> by simp
        moreover have "int (length (filter is_sql_generation ?all)) \<le> max 0 (mr - a)"
          using evs(4) \<open>a < mr\<close> by simp
        moreover have "regenerations_chained env ?all" using chain by simp
        moreover have "list_all looks_like_sql (executed ?all)" using evs(8) ok by simp
        moreover have "retrieval_events ?all" using evs(9) by (simp add: retrieval_events_def)
        moreover have "a' < mr \<longrightarrow> ?all \<noteq> [] \<and> \<not> is_failed_exec (last ?all)"
          using evs(11) by simp
        ultimately show ?thesis using evs(7,10) by (intro exI [of _ ?all]) simp
      qed
    qed
  qed
qed

subsection \<open>Sample worlds\<close>

text \<open>A database that rejects every query, behind a model that keeps writing one.\<close>

definition failing_db_env :: env where
  "failing_db_env =
     \<lparr> llm = (\<lambda>tr req. case req of
                  SqlPrompt p \<Rightarrow> Inr '' SELECT nope FROM real_estate ''
                | _ \<Rightarrow> Inr ''no''),
       json_loads = (\<lambda>s. Inl (ValueError ''not JSON'')),
       sql_connect = (\<lambda>tr. None),
       sql_exec = (\<lambda>tr q. Inl (ExternalError ''pandas.errors.DatabaseError''
                                   ''Execution failed on sql: no such column: nope'')),
       firestore_stream = (\<lambda>tr c. Inr []),
       faiss_keys = [],
       similarity_search = (\<lambda>tr k q. Inr []),
       eval_condition = (\<lambda>tr c d. Inr (\<lambda>entry. False)),
       py_repr = (\<lambda>v. ''?''),
       traceback_frames = (\<lambda>e. ''  File text_to_sql.py, line 153, in handle_user_question\<newline>'') \<rparr>"

text \<open>A model that answers a request for SQL with a statement that is no query.\<close>

definition dropping_env :: env where
  "dropping_env = failing_db_env
     \<lparr> llm := (\<lambda>tr req. Inr ''DROP TABLE real_estate''),
       sql_exec := (\<lambda>tr q. Inr [[(''n'', PInt 1)]]) \<rparr>"

section \<open>The feedback backend (text_to_query.py)\<close>

definition get_feedback_data_from_firestore ::
  "env \<Rightarrow> string \<Rightarrow> trace \<Rightarrow> (exn + pydict list) \<times> trace" where
  "get_feedback_data_from_firestore env collection_name tr =
     (firestore_stream env tr collection_name, tr @ [FirestoreRead collection_name])"

definition classify_query_type :: "env \<Rightarrow> string \<Rightarrow> trace \<Rightarrow> string \<times> trace" where
  "classify_query_type env user_question tr =
     (case chat env (QueryTypePrompt user_question) tr of
        (Inr content, tr1) \<Rightarrow>
          (if lower content = ''analysis'' \<or> lower content = ''filter''
           then lower content else ''filter'', tr1)
      | (Inl e, tr1) \<Rightarrow> (''filter'', tr1))"

definition classify_feedback_focus :: "env \<Rightarrow> string \<Rightarrow> trace \<Rightarrow> string \<times> trace" where
  "classify_feedback_focus env user_question tr =
     (case chat env (FeedbackFocusPrompt user_question) tr of
        (Inr content, tr1) \<Rightarrow>
          (if lower content = ''property'' \<or> lower content = ''agent'' \<or> lower content = ''both''
           then lower content else ''both'', tr1)
      | (Inl e, tr1) \<Rightarrow> (''both'', tr1))"

text \<open>The history text of lines 85 to 87 and 185 to 187: every block ends with a newline.\<close>

definition feedback_history :: "(string \<times> string) list \<Rightarrow> string" where
  "feedback_history turns = concat (map (\<lambda>qa. memory_block qa @ ''\<newline>'') turns)"

definition no_mentions :: pyval where
  "no_mentions = PDict [(''property_id'', PNone), (''agent_id'', PNone)]"

definition infer_mentions_and_context ::
  "env \<Rightarrow> string \<Rightarrow> (string \<times> string) list \<Rightarrow> trace \<Rightarrow> pyval \<times> trace" where
  "infer_mentions_and_context env user_question turns tr =
     (case chat env (MentionsPrompt (feedback_history turns) user_question) tr of
        (Inr content, tr1) \<Rightarrow>
          (case json_loads env content of
             Inr v \<Rightarrow> (v, tr1)
           | Inl e \<Rightarrow> (no_mentions, tr1))
      | (Inl e, tr1) \<Rightarrow> (no_mentions, tr1))"

definition generate_filter_code :: "env \<Rightarrow> string \<Rightarrow> trace \<Rightarrow> string option \<times> trace" where
  "generate_filter_code env user_question tr =
     (case chat env (FilterCodePrompt user_question) tr of
        (Inr generated_code, tr1) \<Rightarrow> (Some generated_code, tr1)
      | (Inl e, tr1) \<Rightarrow> (None, tr1))"

text \<open>\<open>max_entries\<close> is 100 in the one call of extract_trait_summary.\<close>

definition extract_trait_summary ::
  "env \<Rightarrow> string \<Rightarrow> pydict list \<Rightarrow> nat \<Rightarrow> trace \<Rightarrow> string \<times> trace" where
  "extract_trait_summary env user_question data max_entries tr =
     (case chat env (TraitSummaryPrompt user_question (take max_entries data)) tr of
        (Inr answer, tr1) \<Rightarrow> (answer, tr1)
      | (Inl e, tr1) \<Rightarrow> (''Could not identify specific traits from feedback.'', tr1))"

subsection \<open>Feedback entries as shared objects\<close>

text \<open>
  The entries of the feedback list are dictionaries that generate_feedback_analysis
  changes in place, so they live in a store and a list holds their addresses.
  \<open>data[:max_entries]\<close> copies the list, not the dictionaries.
\<close>

type_synonym heap = "nat \<Rightarrow> pydict"

text \<open>\<open>entry.pop(k, None)\<close>.\<close>

definition dict_pop :: "string \<Rightarrow> pydict \<Rightarrow> pydict" where
  "dict_pop k d = filter (\<lambda>kv. fst kv \<noteq> k) d"

fun pop_each :: "string \<Rightarrow> nat list \<Rightarrow> heap \<Rightarrow> heap" where
  "pop_each k [] h = h"
| "pop_each k (r # rs) h = pop_each k rs (h(r := dict_pop k (h r)))"

text \<open>
  generate_feedback_analysis. The pops come first; the history loop takes
  \<open>len(chat_memory_dict)\<close>, a TypeError when there is no dictionary, and only the
  model call is inside the \<open>try\<close>.
\<close>

definition generate_feedback_analysis ::
  "env \<Rightarrow> string \<Rightarrow> heap \<Rightarrow> nat list \<Rightarrow> memory \<Rightarrow> string \<Rightarrow> nat \<Rightarrow> trace
     \<Rightarrow> (exn + string) \<times> heap \<times> trace" where
  "generate_feedback_analysis env user_question h refs chat_memory_dict feedback_focus
       max_entries tr =
     (let data = take max_entries refs;
          h1 = (if feedback_focus = ''property'' then pop_each ''agent_feedback'' data h
                else if feedback_focus = ''agent'' then pop_each ''property_feedback'' data h
                else h)
      in case chat_memory_dict of
           None \<Rightarrow> (Inl (TypeError ''object of type 'NoneType' has no len()''), h1, tr)
         | Some turns \<Rightarrow>
             (case chat env (FeedbackAnalysisPrompt user_question (feedback_history turns)
                               (map h1 data)) tr of
                (Inr answer, tr1) \<Rightarrow> (Inr answer, h1, tr1)
              | (Inl e, tr1) \<Rightarrow>
                  (Inr ''There was an error while summarizing the feedback.'', h1, tr1)))"

subsection \<open>Mentions and their normalisation\<close>

text \<open>\<open>x.get(k)\<close>: only a dictionary has the method.\<close>

fun py_get :: "pyval \<Rightarrow> string \<Rightarrow> exn + pyval" where
  "py_get (PDict d) k = Inr (dict_get d k)"
| "py_get v k = Inl (AttributeError ''object has no attribute 'get' '')"

text \<open>
  \<open>property_mention or mentions.get("property_id")\<close>: the right operand is evaluated
  only when the left one is false.
\<close>

definition raw_mention :: "pyval \<Rightarrow> pyval \<Rightarrow> string \<Rightarrow> exn + pyval" where
  "raw_mention mention mentions key =
     (if truthy mention then Inr mention else py_get mentions key)"

text \<open>\<open>isinstance(x, (str, int))\<close>; a Boolean is an \<open>int\<close>.\<close>

fun is_str_or_int :: "pyval \<Rightarrow> bool" where
  "is_str_or_int (PStr s) = True"
| "is_str_or_int (PInt n) = True"
| "is_str_or_int (PBool b) = True"
| "is_str_or_int v = False"

text \<open>\<open>int(x)\<close> for such an \<open>x\<close>.\<close>

fun py_int :: "pyval \<Rightarrow> exn + int" where
  "py_int (PStr s) = int_of_str s"
| "py_int (PInt n) = Inr n"
| "py_int (PBool b) = Inr (if b then 1 else 0)"
| "py_int v = Inl (TypeError ''int() argument must be a string or a number'')"

text \<open>
  Lines 226 to 232, and again 235 to 241 for the agent: a string, a list, an integer,
  tested in this order; anything else leaves the empty list.
\<close>

fun normalize_ids :: "pyval \<Rightarrow> exn + int list" where
  "normalize_ids (PStr s) = collect (map (\<lambda>x. int_of_str (strip x)) (re_findall_digits s))"
| "normalize_ids (PList xs) = collect (map py_int (filter is_str_or_int xs))"
| "normalize_ids (PInt n) = Inr [n]"
| "normalize_ids (PBool b) = Inr [if b then 1 else 0]"
| "normalize_ids v = Inr []"

text \<open>
  \<open>e.get("property_id") in prop_ids\<close>: equality of numbers, so \<open>True\<close> is 1 and a
  float equals the integer of the same value.
\<close>

fun int_of_number :: "pyval \<Rightarrow> int option" where
  "int_of_number (PInt n) = Some n"
| "int_of_number (PBool b) = Some (if b then 1 else 0)"
| "int_of_number (PFloat m e) =
     (if 0 \<le> e then Some (m * 2 ^ nat e)
      else if m mod 2 ^ nat (- e) = 0 then Some (m div 2 ^ nat (- e))
      else None)"
| "int_of_number v = None"

definition in_ids :: "pyval \<Rightarrow> int list \<Rightarrow> bool" where
  "in_ids v ids = (case int_of_number v of Some n \<Rightarrow> n \<in> set ids | None \<Rightarrow> False)"


section \<open>Facts about the feedback entries and the mentions\<close>

lemma dict_pop_idem: "dict_pop k (dict_pop k d) = dict_pop k d"
  by (simp add: dict_pop_def)

lemma pop_each_at:
  "pop_each k rs h a = (if a \<in> set rs then dict_pop k (h a) else h a)"
  by (induction rs arbitrary: h) (auto simp: dict_pop_idem)

lemma map_of_dict_pop: "k \<noteq> k' \<Longrightarrow> map_of (dict_pop k' d) k = map_of d k"
  by (induction d) (auto simp: dict_pop_def)

lemma generate_feedback_analysis_heap:
  "generate_feedback_analysis env q h refs mem focus n tr = (r, h', tr') \<Longrightarrow>
   h' = (if focus = ''property'' then pop_each ''agent_feedback'' (take n refs) h
         else if focus = ''agent'' then pop_each ''property_feedback'' (take n refs) h
         else h)"
  by (auto simp: generate_feedback_analysis_def Let_def
           split: option.splits prod.splits sum.splits if_splits)

text \<open>One feedback document, and a store that holds it at every address.\<close>

definition sample_entry :: pydict where
  "sample_entry = [(''property_id'', PInt 3), (''agent_id'', PInt 1),
                   (''property_feedback'', PStr ''bright rooms''),
                   (''agent_feedback'', PStr ''always on time'')]"

definition sample_heap :: heap where
  "sample_heap = (\<lambda>a. sample_entry)"

subsection \<open>Normalisation of mentions\<close>

lemma digit_not_space: "is_digit c \<Longrightarrow> \<not> is_space c"
  by (auto simp: is_digit_def is_space_def)

lemma strip_no_space: "\<forall>c\<in>set x. \<not> is_space c \<Longrightarrow> strip x = x"
proof (cases x)
  case Nil
  then show ?thesis by (simp add: strip_def)
next
  case (Cons c cs)
  assume a: "\<forall>c\<in>set x. \<not> is_space c"
  then have front: "dropWhile is_space x = x" using Cons by simp
  have "rev x \<noteq> []" using Cons by simp
  then have "hd (rev x) \<in> set x" by (metis hd_in_set set_rev)
  then have "\<not> is_space (hd (rev x))" using a by blast
  then have "dropWhile is_space (rev x) = rev x" by (simp add: dropWhile_eq_self_iff)
  with front show ?thesis by (simp add: strip_def)
qed

lemma digit_not_int_space: "is_digit c \<Longrightarrow> \<not> is_int_space c"
  by (auto simp: is_digit_def is_int_space_def)

lemma int_strip_no_space: "\<forall>c\<in>set x. \<not> is_int_space c \<Longrightarrow> int_strip x = x"
proof (cases x)
  case Nil
  then show ?thesis by (simp add: int_strip_def)
next
  case (Cons c cs)
  assume a: "\<forall>c\<in>set x. \<not> is_int_space c"
  then have front: "dropWhile is_int_space x = x" using Cons by simp
  have "rev x \<noteq> []" using Cons by simp
  then have "hd (rev x) \<in> set x" by (metis hd_in_set set_rev)
  then have "\<not> is_int_space (hd (rev x))" using a by blast
  then have "dropWhile is_int_space (rev x) = rev x" by (simp add: dropWhile_eq_self_iff)
  with front show ?thesis by (simp add: int_strip_def)
qed

lemma no_double_underscore: "CHR ''_'' \<notin> set x \<Longrightarrow> \<not> double_underscore x"
  by (induction x rule: double_underscore.induct) auto

lemma parse_unsigned_digits:
  assumes "x \<noteq> []" "list_all is_digit x" "length x \<le> int_max_str_digits"
  shows "parse_unsigned x = Value (digits_value x)"
proof -
  have all: "\<forall>c\<in>set x. is_digit c" using assms(2) by (simp add: list_all_iff)
  then have scan: "takeWhile (\<lambda>c. is_digit c \<or> c = CHR ''_'') x = x"
    by (simp add: takeWhile_eq_all_conv)
  have under: "CHR ''_'' \<notin> set x" using all by (auto simp: is_digit_def)
  then have "hd x \<noteq> CHR ''_''" "last x \<noteq> CHR ''_''"
    using assms(1) by (metis hd_in_set, metis last_in_set)
  moreover have "filter is_digit x = x" using all by simp
  ultimately show ?thesis
    unfolding parse_unsigned_def scan Let_def
    using assms(1,3) no_double_underscore [OF under] by simp
qed

lemma int_of_str_digits:
  assumes "x \<noteq> []" "list_all is_digit x" "length x \<le> int_max_str_digits"
  shows "int_of_str (strip x) = Inr (digits_value x)"
proof -
  have s: "strip x = x"
    using assms(2) by (intro strip_no_space) (auto simp: list_all_iff digit_not_space)
  have t: "int_strip x = x"
    using assms(2) by (intro int_strip_no_space) (auto simp: list_all_iff digit_not_int_space)
  obtain c cs where x: "x = c # cs" using assms(1) by (cases x) auto
  then have "is_digit c" using assms(2) by simp
  then have "c \<noteq> CHR ''-''" "c \<noteq> CHR ''+''" by (auto simp: is_digit_def)
  then have "parse_int x = parse_unsigned x" using x by simp
  then show ?thesis
    using parse_unsigned_digits [OF assms] s t by (simp add: int_of_str_def)
qed

lemma re_findall_digits_runs:
  "list_all (\<lambda>x. x \<noteq> [] \<and> list_all is_digit x) (re_findall_digits s)"
proof (induction s rule: re_findall_digits.induct)
  case 1
  show ?case by simp
next
  case (2 c cs)
  have "list_all is_digit (takeWhile is_digit cs)"
    by (simp add: list_all_iff) (meson set_takeWhileD)
  with 2 show ?case by auto
qed

lemma collect_all_ok:
  "list_all (\<lambda>x. f x = Inr (g x)) xs \<Longrightarrow> collect (map f xs) = Inr (map g xs)"
  by (induction xs) auto

lemma normalize_ids_str:
  "list_all (\<lambda>r. length r \<le> int_max_str_digits) (re_findall_digits s) \<Longrightarrow>
   normalize_ids (PStr s) = Inr (map digits_value (re_findall_digits s))"
proof -
  assume "list_all (\<lambda>r. length r \<le> int_max_str_digits) (re_findall_digits s)"
  then have "list_all (\<lambda>x. int_of_str (strip x) = Inr (digits_value x)) (re_findall_digits s)"
    using re_findall_digits_runs [of s]
    by (auto simp: list_all_iff intro!: int_of_str_digits)
  then show ?thesis by (simp add: collect_all_ok)
qed

text \<open>
  The specification's words for the string case: the maximal digit runs of a string,
  in order. A string is a gap without digits, or a gap, a non-empty run of digits that
  ends at the end of the string or before a character that is no digit, and the rest.
\<close>

inductive digit_runs :: "string \<Rightarrow> string list \<Rightarrow> bool" where
  no_run: "list_all (\<lambda>c. \<not> is_digit c) gap \<Longrightarrow> digit_runs gap []"
| one_run: "list_all (\<lambda>c. \<not> is_digit c) gap \<Longrightarrow> r \<noteq> [] \<Longrightarrow> list_all is_digit r
           \<Longrightarrow> (case rest of [] \<Rightarrow> True | c # cs \<Rightarrow> \<not> is_digit c)
           \<Longrightarrow> digit_runs rest rs \<Longrightarrow> digit_runs (gap @ r @ rest) (r # rs)"

lemma digit_runs_skip: "digit_runs s rs \<Longrightarrow> \<not> is_digit c \<Longrightarrow> digit_runs (c # s) rs"
proof (induction rule: digit_runs.cases)
  case (no_run gap)
  then show ?case by (auto intro: digit_runs.no_run)
next
  case (one_run gap r rest rs')
  then have "digit_runs ((c # gap) @ r @ rest) (r # rs')"
    by (intro digit_runs.one_run) auto
  with one_run show ?case by simp
qed

lemma dropWhile_stops: "case dropWhile P xs of [] \<Rightarrow> True | c # cs \<Rightarrow> \<not> P c"
  by (induction xs) auto

lemma digit_runs_findall: "digit_runs s (re_findall_digits s)"
proof (induction s rule: re_findall_digits.induct)
  case 1
  show ?case by (auto intro: digit_runs.no_run)
next
  case (2 c cs)
  show ?case
  proof (cases "is_digit c")
    case False
    with 2 show ?thesis by (simp add: digit_runs_skip)
  next
    case True
    let ?r = "c # takeWhile is_digit cs" and ?rest = "dropWhile is_digit cs"
    have "list_all is_digit ?r" using True
      by (simp add: list_all_iff) (meson set_takeWhileD)
    moreover have "case ?rest of [] \<Rightarrow> True | c # cs \<Rightarrow> \<not> is_digit c"
      by (rule dropWhile_stops)
    moreover have "digit_runs ?rest (re_findall_digits ?rest)" using 2 True by simp
    ultimately have "digit_runs ([] @ ?r @ ?rest) (?r # re_findall_digits ?rest)"
      by (intro digit_runs.one_run) auto
    then show ?thesis using True by simp
  qed
qed

lemma findall_no_digits:
  "list_all (\<lambda>c. \<not> is_digit c) gap \<Longrightarrow> re_findall_digits (gap @ s) = re_findall_digits s"
  by (induction gap) auto

lemma findall_run:
  assumes "r \<noteq> []" "list_all is_digit r" "case rest of [] \<Rightarrow> True | c # cs \<Rightarrow> \<not> is_digit c"
  shows "re_findall_digits (r @ rest) = r # re_findall_digits rest"
proof -
  obtain c cs where r: "r = c # cs" using assms(1) by (cases r) auto
  have all: "\<forall>x\<in>set cs. is_digit x" "is_digit c" using assms(2) r by (auto simp: list_all_iff)
  have tw: "takeWhile is_digit (cs @ rest) = cs @ takeWhile is_digit rest"
    using all by (simp add: takeWhile_append2)
  have dw: "dropWhile is_digit (cs @ rest) = dropWhile is_digit rest"
    using all by (simp add: dropWhile_append2)
  have "takeWhile is_digit rest = []" "dropWhile is_digit rest = rest"
    using assms(3) by (cases rest; simp)+
  with tw dw r all show ?thesis by simp
qed

lemma digit_runs_unique: "digit_runs s rs \<Longrightarrow> rs = re_findall_digits s"
proof (induction rule: digit_runs.induct)
  case (no_run gap)
  then show ?case using findall_no_digits [of gap "[]"] by simp
next
  case (one_run gap r rest rs)
  then show ?case by (simp add: findall_no_digits findall_run)
qed

text \<open>What an element of a list mention becomes: an integer, or nothing for other types.\<close>

fun int_of_element :: "pyval \<Rightarrow> int option" where
  "int_of_element (PStr s) = int_literal s"
| "int_of_element (PInt n) = Some n"
| "int_of_element (PBool b) = Some (if b then 1 else 0)"
| "int_of_element v = None"

text \<open>A string element that \<open>int\<close> accepts; elements of other types pass.\<close>

fun literal_ok :: "pyval \<Rightarrow> bool" where
  "literal_ok (PStr s) = (int_literal s \<noteq> None)"
| "literal_ok v = True"

lemma normalize_ids_list:
  "list_all literal_ok xs \<Longrightarrow> normalize_ids (PList xs) = Inr (List.map_filter int_of_element xs)"
proof -
  assume "list_all literal_ok xs"
  then have "collect (map py_int (filter is_str_or_int xs))
               = Inr (List.map_filter int_of_element xs)"
  proof (induction xs)
    case Nil
    show ?case by (simp add: List.map_filter_simps)
  next
    case (Cons x xs)
    then show ?case
      by (cases x)
         (auto simp: List.map_filter_simps int_of_str_def int_literal_def split: parsed.splits)
  qed
  then show ?thesis by simp
qed


section \<open>The rest of the feedback handler\<close>

text \<open>
  Lines 274 to 276. The store of the entries is dropped when the summary is back: the
  fetched list is local to handle_user_feedback_query.
\<close>

definition summarize_selection ::
  "env \<Rightarrow> string \<Rightarrow> pydict list \<Rightarrow> nat list \<Rightarrow> memory \<Rightarrow> string \<Rightarrow> trace
     \<Rightarrow> (exn + string) \<times> trace" where
  "summarize_selection env user_question data filtered_data chat_memory_dict feedback_focus tr =
     (if filtered_data \<noteq> [] then
        (case generate_feedback_analysis env user_question (\<lambda>a. data ! a) filtered_data
                chat_memory_dict feedback_focus 120 tr of
           (r, h', tr1) \<Rightarrow> (r, tr1))
      else (Inr ''Couldn't find relevant feedback in the dataset.'', tr))"

text \<open>The addresses of the entries of \<open>data\<close> that pass a test, in order.\<close>

definition select_entries :: "pydict list \<Rightarrow> (pydict \<Rightarrow> bool) \<Rightarrow> nat list" where
  "select_entries data keep = filter (\<lambda>a. keep (data ! a)) [0 ..< length data]"

text \<open>
  The body of the \<open>try\<close> of handle_user_feedback_query (lines 250 to 276). The
  generated filter is Python text evaluated by \<open>eval\<close>; it is taken to be the list
  comprehension over \<open>data\<close> that the prompt asks for, so its evaluation gives the
  condition of the comprehension, or raises.
\<close>

definition feedback_try_block ::
  "env \<Rightarrow> string \<Rightarrow> pydict list \<Rightarrow> int list \<Rightarrow> int list \<Rightarrow> string \<Rightarrow> string \<Rightarrow> memory
     \<Rightarrow> trace \<Rightarrow> (exn + string) \<times> trace" where
  "feedback_try_block env user_question data prop_ids agent_ids query_type feedback_focus
       chat_memory_dict tr =
     (if query_type = ''analysis'' \<and> prop_ids = [] \<and> agent_ids = [] then
        (case extract_trait_summary env user_question data 100 tr of
           (answer, tr1) \<Rightarrow> (Inr answer, tr1))
      else if prop_ids \<noteq> [] \<and> agent_ids \<noteq> [] then
        summarize_selection env user_question data
          (select_entries data (\<lambda>e. in_ids (dict_get e ''property_id'') prop_ids
                                    \<and> in_ids (dict_get e ''agent_id'') agent_ids))
          chat_memory_dict feedback_focus tr
      else if prop_ids \<noteq> [] then
        summarize_selection env user_question data
          (select_entries data (\<lambda>e. in_ids (dict_get e ''property_id'') prop_ids))
          chat_memory_dict feedback_focus tr
      else if agent_ids \<noteq> [] then
        summarize_selection env user_question data
          (select_entries data (\<lambda>e. in_ids (dict_get e ''agent_id'') agent_ids))
          chat_memory_dict feedback_focus tr
      else
        (case generate_filter_code env user_question tr of
           (None, tr1) \<Rightarrow>
             summarize_selection env user_question data [] chat_memory_dict feedback_focus tr1
         | (Some code, tr1) \<Rightarrow>
             if code = [] then
               summarize_selection env user_question data [] chat_memory_dict feedback_focus tr1
             else
               (case eval_condition env tr1 code data of
                  Inl eval_err \<Rightarrow>
                    (Inr (''Generated filter code failed: '' @ str_of_exn eval_err),
                     tr1 @ [EvalFilter code])
                | Inr keep \<Rightarrow>
                    summarize_selection env user_question data (select_entries data keep)
                      chat_memory_dict feedback_focus (tr1 @ [EvalFilter code]))))"

text \<open>
  Lines 217 to 244 of handle_user_feedback_query: the read of the collection, the
  inference of the mentions, the normalisation and the two classifications. They
  stand before the \<open>try\<close>, so what they raise leaves the function as an exception.
\<close>

datatype feedback_request =
    EmptyDataset
  | Ready "pydict list" "int list" "int list" string string

definition prepare_feedback ::
  "env \<Rightarrow> string \<Rightarrow> string \<Rightarrow> pyval \<Rightarrow> pyval \<Rightarrow> memory \<Rightarrow> trace
     \<Rightarrow> (exn + feedback_request) \<times> trace" where
  "prepare_feedback env user_question collection_name property_mention agent_mention
       chat_memory_dict tr =
     (case get_feedback_data_from_firestore env collection_name tr of
        (Inl e, tr1) \<Rightarrow> (Inl e, tr1)
      | (Inr data, tr1) \<Rightarrow>
          if data = [] then (Inr EmptyDataset, tr1)
          else
            (case infer_mentions_and_context env user_question (turns_of chat_memory_dict) tr1 of
               (mentions, tr2) \<Rightarrow>
                 (case raw_mention property_mention mentions ''property_id'' of
                    Inl e \<Rightarrow> (Inl e, tr2)
                  | Inr prop_id_raw \<Rightarrow>
                 (case raw_mention agent_mention mentions ''agent_id'' of
                    Inl e \<Rightarrow> (Inl e, tr2)
                  | Inr agent_id_raw \<Rightarrow>
                 (case normalize_ids prop_id_raw of
                    Inl e \<Rightarrow> (Inl e, tr2)
                  | Inr prop_ids \<Rightarrow>
                 (case normalize_ids agent_id_raw of
                    Inl e \<Rightarrow> (Inl e, tr2)
                  | Inr agent_ids \<Rightarrow>
                 (case classify_query_type env user_question tr2 of
                    (query_type, tr3) \<Rightarrow>
                 (case classify_feedback_focus env user_question tr3 of
                    (feedback_focus, tr4) \<Rightarrow>
                      (Inr (Ready data prop_ids agent_ids query_type feedback_focus), tr4)))))))))"

text \<open>handle_user_feedback_query: the preparation, then the \<open>try\<close> with its handler.\<close>

definition handle_user_feedback_query ::
  "env \<Rightarrow> string \<Rightarrow> string \<Rightarrow> pyval \<Rightarrow> pyval \<Rightarrow> memory \<Rightarrow> trace \<Rightarrow> (exn + string) \<times> trace" where
  "handle_user_feedback_query env user_question collection_name property_mention agent_mention
       chat_memory_dict tr =
     (case prepare_feedback env user_question collection_name property_mention agent_mention
             chat_memory_dict tr of
        (Inl e, tr1) \<Rightarrow> (Inl e, tr1)
      | (Inr EmptyDataset, tr1) \<Rightarrow> (Inr ''The feedback dataset is empty.'', tr1)
      | (Inr (Ready data prop_ids agent_ids query_type feedback_focus), tr1) \<Rightarrow>
          (case feedback_try_block env user_question data prop_ids agent_ids query_type
                  feedback_focus chat_memory_dict tr1 of
             (Inl e, tr2) \<Rightarrow>
               (Inr (''Error while processing the query: '' @ str_of_exn e), tr2)
           | (Inr answer, tr2) \<Rightarrow> (Inr answer, tr2)))"

section \<open>The document backend (fetch_data_from_pdf.py)\<close>

text \<open>What is left of a string after a prefix, if it starts with it.\<close>

fun after_prefix :: "string \<Rightarrow> string \<Rightarrow> string option" where
  "after_prefix [] s = Some s"
| "after_prefix (p # ps) [] = None"
| "after_prefix (p # ps) (c # cs) = (if p = c then after_prefix ps cs else None)"

text \<open>
  The pattern \<open>property\s*(?:id)?\s*(\d+)\<close> tried at the start of a string: the
  digits of its group and the text after the match. The classes of white space,
  letters and digits are disjoint, so the greedy choice at each step is the only one
  that can succeed.
\<close>

definition match_property :: "string \<Rightarrow> (string \<times> string) option" where
  "match_property s =
     (case after_prefix ''property'' s of
        None \<Rightarrow> None
      | Some r1 \<Rightarrow>
          (let r2 = dropWhile is_space r1;
               r3 = (case after_prefix ''id'' r2 of Some r \<Rightarrow> r | None \<Rightarrow> r2);
               r4 = dropWhile is_space r3
           in if takeWhile is_digit r4 = [] then None
              else Some (takeWhile is_digit r4, dropWhile is_digit r4)))"

lemma after_prefix_length: "after_prefix p s = Some r \<Longrightarrow> length r + length p = length s"
  by (induction p s rule: after_prefix.induct) (auto split: if_splits)

lemma match_property_shorter: "match_property s = Some (ds, rest) \<Longrightarrow> length rest < length s"
proof -
  assume m: "match_property s = Some (ds, rest)"
  then obtain r1 where r1: "after_prefix ''property'' s = Some r1"
    by (auto simp: match_property_def split: option.splits)
  let ?r2 = "dropWhile is_space r1"
  let ?r3 = "case after_prefix ''id'' ?r2 of Some r \<Rightarrow> r | None \<Rightarrow> ?r2"
  let ?r4 = "dropWhile is_space ?r3"
  have rest: "rest = dropWhile is_digit ?r4"
    using m r1 by (auto simp: match_property_def Let_def split: if_splits)
  have "length ?r3 \<le> length ?r2"
    by (cases "after_prefix ''id'' ?r2") (auto dest: after_prefix_length)
  moreover have "length ?r2 \<le> length r1" by (rule length_dropWhile_le)
  moreover have "length ?r4 \<le> length ?r3" by (rule length_dropWhile_le)
  moreover have "length rest \<le> length ?r4" unfolding rest by (rule length_dropWhile_le)
  moreover have "length r1 < length s" using after_prefix_length [OF r1] by simp
  ultimately show ?thesis by linarith
qed

text \<open>\<open>re.findall\<close> with that pattern: the groups of the matches, left to right.\<close>

function findall_property :: "string \<Rightarrow> string list" where
  "findall_property [] = []"
| "findall_property (c # cs) =
     (case match_property (c # cs) of
        Some (ds, rest) \<Rightarrow> ds # findall_property rest
      | None \<Rightarrow> findall_property cs)"
  by pat_completeness auto
termination
  by (relation "measure length") (auto dest: match_property_shorter)

text \<open>\<open>re.search\<close> with that pattern: the group of the first match.\<close>

definition search_property :: "string \<Rightarrow> string option" where
  "search_property s = (case findall_property s of [] \<Rightarrow> None | ds # rest \<Rightarrow> Some ds)"

definition should_use_chat_history :: "env \<Rightarrow> string \<Rightarrow> trace \<Rightarrow> bool \<times> trace" where
  "should_use_chat_history env user_question tr =
     (case chat env (UseHistoryPrompt user_question) tr of
        (Inr result, tr1) \<Rightarrow> (lower result = ''yes'', tr1)
      | (Inl e, tr1) \<Rightarrow> (False, tr1))"

definition extract_property_mentions ::
  "env \<Rightarrow> string \<Rightarrow> memory \<Rightarrow> trace \<Rightarrow> string list \<times> trace" where
  "extract_property_mentions env user_question chat_memory_dict tr =
     (case chat env (PropertyMentionsPrompt
                       (if no_memory chat_memory_dict then user_question
                        else memory_text (turns_of chat_memory_dict) @ ''\<newline>'' @ user_question))
             tr of
        (Inr raw_content, tr1) \<Rightarrow>
          (map (\<lambda>m. ''property '' @ m) (findall_property (lower raw_content)), tr1)
      | (Inl e, tr1) \<Rightarrow> ([], tr1))"

text \<open>
  The searches over a list of keys, in order: a key that is no index is skipped, and
  the first search that raises ends the loop. Each hit is kept with its key.
\<close>

fun search_keys ::
  "env \<Rightarrow> string \<Rightarrow> string list \<Rightarrow> trace \<Rightarrow> (exn + (string \<times> string) list) \<times> trace" where
  "search_keys env user_question [] tr = (Inr [], tr)"
| "search_keys env user_question (key # keys) tr =
     (if key \<in> set (faiss_keys env) then
        (case similarity_search env tr key user_question of
           Inl e \<Rightarrow> (Inl e, tr @ [FaissSearch key user_question])
         | Inr results \<Rightarrow>
             (case search_keys env user_question keys (tr @ [FaissSearch key user_question]) of
                (Inl e, tr1) \<Rightarrow> (Inl e, tr1)
              | (Inr hits, tr1) \<Rightarrow> (Inr (map (Pair key) results @ hits), tr1)))
      else search_keys env user_question keys tr)"

text \<open>A dictionary of lists: \<open>d.setdefault(k, []).append(v)\<close>, for every pair in turn.\<close>

definition append_at :: "string \<Rightarrow> string \<Rightarrow> (string \<times> string list) list \<Rightarrow> (string \<times> string list) list" where
  "append_at k v d =
     (if k \<in> fst ` set d then map (\<lambda>kv. if fst kv = k then (k, snd kv @ [v]) else kv) d
      else d @ [(k, [v])])"

fun group_sources :: "(string \<times> string) list \<Rightarrow> (string \<times> string list) list \<Rightarrow> (string \<times> string list) list" where
  "group_sources [] grouped = grouped"
| "group_sources ((pid, content) # rest) grouped = group_sources rest (append_at pid content grouped)"

text \<open>Lines 135 to 140: the first \<open>max_results\<close> properties, two chunks of each at most.\<close>

fun unique_properties ::
  "nat \<Rightarrow> (string \<times> string) list \<Rightarrow> (string \<times> string list) list \<Rightarrow> (string \<times> string list) list" where
  "unique_properties max_results [] unique = unique"
| "unique_properties max_results ((pid, content) # rest) unique =
     unique_properties max_results rest
       (case map_of unique pid of
          None \<Rightarrow> if length unique < max_results then unique @ [(pid, [content])] else unique
        | Some contents \<Rightarrow>
            if length contents < 2 then append_at pid content unique else unique)"

definition flatten_sources :: "(string \<times> string list) list \<Rightarrow> (string \<times> string) list" where
  "flatten_sources unique = concat (map (\<lambda>kv. map (Pair (fst kv)) (snd kv)) unique)"

definition assemble_context :: "(string \<times> string) list \<Rightarrow> string" where
  "assemble_context doc_sources =
     strip (concat (map (\<lambda>kv. ''\<newline>PROPERTY '' @ fst kv @ '':\<newline>'' @ join_lines (take 2 (snd kv)) @ ''\<newline>'')
                        (group_sources doc_sources [])))"

datatype search_result = NoDocuments | Found string "string list"

text \<open>Lines 110 to 114: the index key of every mention the pattern is found in.\<close>

definition valid_keys_of :: "string list \<Rightarrow> string list" where
  "valid_keys_of mentions =
     List.map_filter
       (\<lambda>mention. map_option (\<lambda>ds. ''Property_ID_'' @ ds) (search_property mention)) mentions"

text \<open>
  search_property_pdfs. Its parameter \<open>property_mention\<close> is not read by the body, and
  lines 104 to 106 can only replace an empty list by an empty list.
\<close>

definition search_property_pdfs ::
  "env \<Rightarrow> string \<Rightarrow> pyval \<Rightarrow> memory \<Rightarrow> nat \<Rightarrow> trace \<Rightarrow> (exn + search_result) \<times> trace" where
  "search_property_pdfs env user_question property_mention chat_memory_dict max_results tr =
     (case should_use_chat_history env user_question tr of
        (use_memory, tr1) \<Rightarrow>
     (case extract_property_mentions env user_question
             (if use_memory then chat_memory_dict else None) tr1 of
        (mentions, tr2) \<Rightarrow>
     (let valid_keys = valid_keys_of mentions
      in case (if valid_keys \<noteq> [] then search_keys env user_question valid_keys tr2
               else search_keys env user_question (faiss_keys env) tr2) of
           (Inl e, tr3) \<Rightarrow> (Inl e, tr3)
         | (Inr hits, tr3) \<Rightarrow>
             (let doc_sources = (if valid_keys \<noteq> [] then hits
                                 else flatten_sources (unique_properties max_results hits []))
              in if doc_sources = [] then (Inr NoDocuments, tr3)
                 else (Inr (Found (assemble_context doc_sources) (map snd doc_sources)), tr3)))))"

definition extract_requested_count_via_llm :: "env \<Rightarrow> string \<Rightarrow> int \<Rightarrow> trace \<Rightarrow> int \<times> trace" where
  "extract_requested_count_via_llm env user_question default_count tr =
     (case chat env (RequestedCountPrompt user_question) tr of
        (Inr content, tr1) \<Rightarrow>
          (case re_findall_digits content of
             [] \<Rightarrow> (default_count, tr1)
           | ds # rest \<Rightarrow>
               (case int_of_str ds of Inr n \<Rightarrow> (n, tr1) | Inl e \<Rightarrow> (default_count, tr1)))
      | (Inl e, tr1) \<Rightarrow> (default_count, tr1))"

definition generate_answer_from_context ::
  "env \<Rightarrow> string \<Rightarrow> string \<Rightarrow> trace \<Rightarrow> string \<times> trace" where
  "generate_answer_from_context env user_question context tr =
     (case extract_requested_count_via_llm env user_question 3 tr of
        (requested_count, tr1) \<Rightarrow>
          (case chat env (ContextAnswerPrompt user_question context requested_count) tr1 of
             (Inr answer, tr2) \<Rightarrow> (answer, tr2)
           | (Inl e, tr2) \<Rightarrow> (''There was an error while generating the answer.'', tr2)))"


section \<open>The router (agent_router.py)\<close>

definition is_general_message :: "env \<Rightarrow> string \<Rightarrow> trace \<Rightarrow> bool \<times> trace" where
  "is_general_message env user_message tr =
     (case chat env (IsGeneralPrompt user_message) tr of
        (Inr reply, tr1) \<Rightarrow> (lower reply = ''general'', tr1)
      | (Inl e, tr1) \<Rightarrow> (False, tr1))"

text \<open>
  The fallback greeting. Its one character beyond code point 255, a dash after
  \<open>portfolio\<close>, is written as a hyphen here.
\<close>

definition friendly_default :: string where
  "friendly_default =
     ''Hello! I'm here to help you analyze your property portfolio - '' @
     ''from sales performance to agent effectiveness and customer feedback. '' @
     ''Let me know what you'd like to explore today.''"

definition generate_friendly_reply :: "env \<Rightarrow> string \<Rightarrow> trace \<Rightarrow> string \<times> trace" where
  "generate_friendly_reply env user_message tr =
     (case chat env (FriendlyReplyPrompt user_message) tr of
        (Inr reply, tr1) \<Rightarrow> (reply, tr1)
      | (Inl e, tr1) \<Rightarrow> (friendly_default, tr1))"

text \<open>The messages after the system prompt (lines 119 to 124), as role and content.\<close>

definition route_messages :: "string \<Rightarrow> memory \<Rightarrow> (string \<times> string) list" where
  "route_messages user_question chat_memory_dict =
     (if no_memory chat_memory_dict then []
      else concat (map (\<lambda>qa. [(''user'', fst qa), (''assistant'', snd qa)])
                       (turns_of chat_memory_dict)))
     @ [(''user'', user_question)]"

definition default_route :: pyval where
  "default_route =
     PDict [(''destination'', PStr ''sql''), (''property_mention'', PNone), (''agent_mention'', PNone)]"

text \<open>
  route_query_with_function_call. The reply is the argument text of the function
  call; the call and \<open>json.loads\<close> are in one \<open>try\<close>.
\<close>

definition route_query_with_function_call ::
  "env \<Rightarrow> string \<Rightarrow> memory \<Rightarrow> trace \<Rightarrow> pyval \<times> trace" where
  "route_query_with_function_call env user_question chat_memory_dict tr =
     (case llm env tr (RoutePrompt (route_messages user_question chat_memory_dict)) of
        Inl e \<Rightarrow>
          (default_route, tr @ [LLM (RoutePrompt (route_messages user_question chat_memory_dict))])
      | Inr arguments \<Rightarrow>
          (case json_loads env arguments of
             Inl e \<Rightarrow>
               (default_route,
                tr @ [LLM (RoutePrompt (route_messages user_question chat_memory_dict))])
           | Inr route_info \<Rightarrow>
               (route_info,
                tr @ [LLM (RoutePrompt (route_messages user_question chat_memory_dict))])))"

definition handler_error :: string where
  "handler_error = ''An error occurred while processing your query.''"

text \<open>
  The dispatch of run_query (lines 203 to 237), given what the routing reply holds.
  The invocation of a handler is an event of the trace, with the arguments the
  handler is given. An exception of a handler is caught here.
\<close>

definition dispatch ::
  "env \<Rightarrow> string \<Rightarrow> memory \<Rightarrow> pyval \<Rightarrow> pyval \<Rightarrow> pyval \<Rightarrow> trace \<Rightarrow> (pyval \<times> string) \<times> trace" where
  "dispatch env query memory destination property_mention agent_mention tr =
     (if destination = PStr ''sql'' then
        (case sql_connect env tr of
           Some e \<Rightarrow> ((PStr handler_error, ''error''), tr @ [SqlConnect (Some e)])
         | None \<Rightarrow>
             (case handle_user_question env query property_mention agent_mention memory 3
                     (tr @ [SqlConnect None,
                            Invoke (CallSql query property_mention agent_mention memory)]) of
                (result, tr1) \<Rightarrow> ((result, ''sql''), tr1)))
      else if destination = PStr ''firestore'' then
        (case handle_user_feedback_query env query ''feedback_feedback'' property_mention
                agent_mention memory
                (tr @ [Invoke (CallFirestore query property_mention agent_mention memory)]) of
           (Inl e, tr1) \<Rightarrow> ((PStr handler_error, ''error''), tr1)
         | (Inr result, tr1) \<Rightarrow> ((PStr result, ''firestore''), tr1))
      else if destination = PStr ''faiss'' then
        (case search_property_pdfs env query property_mention memory 3
                (tr @ [Invoke (CallFaiss query property_mention memory)]) of
           (Inl e, tr1) \<Rightarrow> ((PStr handler_error, ''error''), tr1)
         | (Inr NoDocuments, tr1) \<Rightarrow> ((PNone, ''faiss''), tr1)
         | (Inr (Found context docs), tr1) \<Rightarrow>
             if context = [] then ((PNone, ''faiss''), tr1)
             else
               (case generate_answer_from_context env query context tr1 of
                  (answer, tr2) \<Rightarrow> ((PStr answer, ''faiss''), tr2)))
      else ((PStr ''Invalid routing destination.'', ''invalid''), tr))"

text \<open>
  run_query, the function nested in handle_routed_query. The three \<open>.get\<close> calls on
  the routing reply stand before the \<open>try\<close>: a reply that is no dictionary raises.
\<close>

definition run_query ::
  "env \<Rightarrow> string \<Rightarrow> memory \<Rightarrow> trace \<Rightarrow> (exn + pyval \<times> string) \<times> trace" where
  "run_query env query memory tr =
     (case route_query_with_function_call env query memory tr of
        (route_info, tr1) \<Rightarrow>
          (case py_get route_info ''destination'' of
             Inl e \<Rightarrow> (Inl e, tr1)
           | Inr destination \<Rightarrow>
          (case py_get route_info ''property_mention'' of
             Inl e \<Rightarrow> (Inl e, tr1)
           | Inr property_mention \<Rightarrow>
          (case py_get route_info ''agent_mention'' of
             Inl e \<Rightarrow> (Inl e, tr1)
           | Inr agent_mention \<Rightarrow>
               (case dispatch env query memory destination property_mention agent_mention tr1 of
                  (r, tr2) \<Rightarrow> (Inr r, tr2))))))"

text \<open>
  \<open>generate_natural_answer(user_question, result) if isinstance(result, list) else result\<close>.
\<close>

definition final_answer :: "env \<Rightarrow> string \<Rightarrow> pyval \<Rightarrow> trace \<Rightarrow> pyval \<times> trace" where
  "final_answer env user_question result tr =
     (case result of
        PList rows \<Rightarrow>
          (case generate_natural_answer env user_question result tr of
             (answer, tr1) \<Rightarrow> (PStr answer, tr1))
      | _ \<Rightarrow> (result, tr))"

text \<open>
  \<open>result and (not isinstance(result, str) or "no relevant" not in result.lower())\<close>.
\<close>

definition usable :: "pyval \<Rightarrow> bool" where
  "usable result =
     (truthy result \<and>
      (case result of PStr s \<Rightarrow> \<not> str_contains ''no relevant'' (lower s) | _ \<Rightarrow> True))"

definition nothing_found :: "string \<Rightarrow> string" where
  "nothing_found user_question =
     ''Sorry, no relevant information found for: **'' @ user_question @ ''**.''"

text \<open>Lines 239 to 252: the primary run and the fallback run.\<close>

definition answer_business :: "env \<Rightarrow> string \<Rightarrow> memory \<Rightarrow> trace \<Rightarrow> (exn + pyval) \<times> trace" where
  "answer_business env user_question chat_memory_dict tr =
     (case run_query env user_question chat_memory_dict tr of
        (Inl e, tr1) \<Rightarrow> (Inl e, tr1)
      | (Inr (result, destination), tr1) \<Rightarrow>
          if usable result then
            (case final_answer env user_question result tr1 of (a, tr2) \<Rightarrow> (Inr a, tr2))
          else if \<not> no_memory chat_memory_dict then
            (case run_query env user_question chat_memory_dict tr1 of
               (Inl e, tr2) \<Rightarrow> (Inl e, tr2)
             | (Inr (fallback_result, d), tr2) \<Rightarrow>
                 if truthy fallback_result then
                   (case final_answer env user_question fallback_result tr2 of
                      (a, tr3) \<Rightarrow> (Inr a, tr3))
                 else (Inr (PStr (nothing_found user_question)), tr2))
          else (Inr (PStr (nothing_found user_question)), tr1))"

definition handle_routed_query :: "env \<Rightarrow> string \<Rightarrow> memory \<Rightarrow> trace \<Rightarrow> (exn + pyval) \<times> trace" where
  "handle_routed_query env user_question chat_memory_dict tr =
     (case is_general_message env user_question tr of
        (True, tr1) \<Rightarrow>
          (case generate_friendly_reply env user_question tr1 of
             (reply, tr2) \<Rightarrow> (Inr (PStr reply), tr2))
      | (False, tr1) \<Rightarrow> answer_business env user_question chat_memory_dict tr1)"


text \<open>
  The handler that the dispatch of run_query invokes for a destination, with the
  arguments it passes (lines 204 to 233): the document search is given the property
  mention only, and the tabular handler is invoked only once get_sqlite_conn has
  returned a connection.
\<close>

definition backend_chosen ::
  "env \<Rightarrow> string \<Rightarrow> memory \<Rightarrow> pyval \<Rightarrow> pyval \<Rightarrow> pyval \<Rightarrow> trace \<Rightarrow> backend_call list" where
  "backend_chosen env query memory destination property_mention agent_mention tr =
     (if destination = PStr ''sql'' then
        (case sql_connect env tr of
           None \<Rightarrow> [CallSql query property_mention agent_mention memory]
         | Some e \<Rightarrow> [])
      else if destination = PStr ''firestore'' then
        [CallFirestore query property_mention agent_mention memory]
      else if destination = PStr ''faiss'' then [CallFaiss query property_mention memory]
      else [])"

text \<open>
  What one call of run_query may add to the trace after its routing call. Nothing
  (an unknown destination, a routing reply that is no dictionary); or a call of
  get_sqlite_conn that raises; or a call of get_sqlite_conn, the invocation of the
  tabular handler and what that handler does; or the invocation of one of the other
  two handlers and what it does. A handler is given the question and the memory of
  the turn, and what it does is retrieval first and answering after it, with no
  write to the database file and no invocation of another handler.
\<close>

fun pass_events :: "string \<Rightarrow> memory \<Rightarrow> trace \<Rightarrow> bool" where
  "pass_events q mem [] = True"
| "pass_events q mem (SqlConnect (Some e) # evs) = (evs = [])"
| "pass_events q mem (SqlConnect None # Invoke (CallSql q' pm am mem') # evs) =
     (q' = q \<and> mem' = mem \<and> handler_events evs)"
| "pass_events q mem (Invoke (CallFirestore q' pm am mem') # evs) =
     (q' = q \<and> mem' = mem \<and> handler_events evs)"
| "pass_events q mem (Invoke (CallFaiss q' pm mem') # evs) =
     (q' = q \<and> mem' = mem \<and> handler_events evs)"
| "pass_events q mem evs = False"

text \<open>A routing call of the turn and what run_query adds after it.\<close>

fun one_pass :: "string \<Rightarrow> memory \<Rightarrow> trace \<Rightarrow> bool" where
  "one_pass q mem [] = False"
| "one_pass q mem (ev # evs) = (ev = LLM (RoutePrompt (route_messages q mem)) \<and> pass_events q mem evs)"


section \<open>What each handler adds to the trace\<close>

lemma invocations_append: "invocations (a @ b) = invocations a @ invocations b"
  by (induction a rule: invocations.induct) auto

lemma retrieval_events_append:
  "retrieval_events (a @ b) = (retrieval_events a \<and> retrieval_events b)"
  by (auto simp: retrieval_events_def invocations_append)

lemma summary_events_append:
  "summary_events (a @ b) = (summary_events a \<and> summary_events b)"
  by (auto simp: summary_events_def)

lemma retrieval_events_Nil: "retrieval_events []"
  by (simp add: retrieval_events_def)

lemma summary_events_Nil: "summary_events []"
  by (simp add: summary_events_def)

lemma same_stage_sorted: "\<forall>ev\<in>set evs. stage ev = k \<Longrightarrow> sorted (map stage evs)"
  by (induction evs) auto

lemma summary_no_invocations: "list_all (\<lambda>ev. stage ev = 3) evs \<Longrightarrow> invocations evs = []"
  by (induction evs rule: invocations.induct) auto

lemma retrieval_is_handler: "retrieval_events a \<Longrightarrow> handler_events a"
proof -
  assume r: "retrieval_events a"
  then have all: "\<forall>ev\<in>set a. stage ev = 2" by (simp add: retrieval_events_def list_all_iff)
  then have "sorted (map stage a)" by (rule same_stage_sorted)
  with r all show ?thesis by (simp add: retrieval_events_def handler_events_def list_all_iff)
qed

lemma answering_no_rewrite: "stage ev = 3 \<Longrightarrow> \<not> rewrites_table ev"
  by (cases ev rule: rewrites_table.cases) auto

lemma summary_is_handler: "summary_events a \<Longrightarrow> handler_events a"
proof -
  assume "summary_events a"
  then have l: "list_all (\<lambda>ev. stage ev = 3) a" by (simp add: summary_events_def)
  then have all: "\<forall>ev\<in>set a. stage ev = 3" by (simp add: list_all_iff)
  then have "sorted (map stage a)" by (rule same_stage_sorted)
  with all summary_no_invocations [OF l] show ?thesis
    by (auto simp: handler_events_def list_all_iff answering_no_rewrite)
qed

lemma handler_after_retrieval:
  "retrieval_events a \<Longrightarrow> handler_events b \<Longrightarrow> handler_events (a @ b)"
proof -
  assume r: "retrieval_events a" and h: "handler_events b"
  from r have all: "\<forall>ev\<in>set a. stage ev = 2" by (simp add: retrieval_events_def list_all_iff)
  then have "sorted (map stage a)" by (rule same_stage_sorted)
  with r h all show ?thesis
    by (auto simp: retrieval_events_def handler_events_def sorted_append invocations_append
                   list_all_iff)
qed

lemma chat_trace: "chat env req tr = (r, tr1) \<Longrightarrow> tr1 = tr @ [LLM req]"
  using snd_chat [of env req tr] by simp

lemma needs_chat_context_events:
  "needs_chat_context env q mem tr = (u, tr1) \<Longrightarrow> \<exists>evs. tr1 = tr @ evs \<and> retrieval_events evs"
  by (drule needs_chat_context_trace) (auto simp: retrieval_events_def)

lemma handle_user_question_events:
  "handle_user_question env q pm am mem mr tr = (r, tr') \<Longrightarrow>
   \<exists>evs. tr' = tr @ evs \<and> retrieval_events evs"
proof -
  assume h: "handle_user_question env q pm am mem mr tr = (r, tr')"
  obtain u tr1 where n: "needs_chat_context env q mem tr = (u, tr1)"
    by (cases "needs_chat_context env q mem tr")
  obtain res a tr2 where l:
    "sql_retry_loop env (prepare_question env u q pm am mem) mr 0 None None tr1 = (res, a, tr2)"
    by (cases "sql_retry_loop env (prepare_question env u q pm am mem) mr 0 None None tr1")
  from h n l have "tr' = tr2" by (simp add: handle_user_question_def)
  moreover from needs_chat_context_events [OF n] obtain e1 where "tr1 = tr @ e1" "retrieval_events e1"
    by blast
  moreover from sql_retry_loop_trace [OF l] obtain e2 where "tr2 = tr1 @ e2" "retrieval_events e2"
    by blast
  ultimately show ?thesis by (auto simp: retrieval_events_append)
qed

lemma infer_mentions_events:
  "infer_mentions_and_context env q turns tr = (m, tr1) \<Longrightarrow>
   tr1 = tr @ [LLM (MentionsPrompt (feedback_history turns) q)]"
  by (auto simp: infer_mentions_and_context_def dest: chat_trace split: prod.splits sum.splits)

lemma classify_query_type_events:
  "classify_query_type env q tr = (t, tr1) \<Longrightarrow> tr1 = tr @ [LLM (QueryTypePrompt q)]"
  by (auto simp: classify_query_type_def dest: chat_trace split: prod.splits sum.splits)

lemma classify_feedback_focus_events:
  "classify_feedback_focus env q tr = (t, tr1) \<Longrightarrow> tr1 = tr @ [LLM (FeedbackFocusPrompt q)]"
  by (auto simp: classify_feedback_focus_def dest: chat_trace split: prod.splits sum.splits)

lemma generate_filter_code_events:
  "generate_filter_code env q tr = (c, tr1) \<Longrightarrow> tr1 = tr @ [LLM (FilterCodePrompt q)]"
  by (auto simp: generate_filter_code_def dest: chat_trace split: prod.splits sum.splits)

lemma extract_trait_summary_events:
  "extract_trait_summary env q data n tr = (a, tr1) \<Longrightarrow>
   tr1 = tr @ [LLM (TraitSummaryPrompt q (take n data))]"
  by (auto simp: extract_trait_summary_def dest: chat_trace split: prod.splits sum.splits)

lemma generate_feedback_analysis_events:
  "generate_feedback_analysis env q h refs mem focus n tr = (r, h', tr1) \<Longrightarrow>
   \<exists>evs. tr1 = tr @ evs \<and> summary_events evs"
  by (auto simp: generate_feedback_analysis_def Let_def summary_events_def dest!: chat_trace
           split: option.splits prod.splits sum.splits)

lemma summarize_selection_events:
  "summarize_selection env q data sel mem focus tr = (r, tr1) \<Longrightarrow>
   \<exists>evs. tr1 = tr @ evs \<and> summary_events evs"
  by (auto simp: summarize_selection_def summary_events_Nil dest: generate_feedback_analysis_events
           split: if_splits prod.splits)

lemma feedback_try_block_events:
  "feedback_try_block env q data ps as qt focus mem tr = (r, tr1) \<Longrightarrow>
   \<exists>evs. tr1 = tr @ evs \<and> handler_events evs"
proof -
  assume f: "feedback_try_block env q data ps as qt focus mem tr = (r, tr1)"
  have direct: "\<And>sel. summarize_selection env q data sel mem focus tr = (r, tr1)
                  \<Longrightarrow> \<exists>evs. tr1 = tr @ evs \<and> handler_events evs"
    by (blast dest: summarize_selection_events intro: summary_is_handler)
  show ?thesis
  proof (cases "qt = ''analysis'' \<and> ps = [] \<and> as = []")
    case True
    with f have "tr1 = tr @ [LLM (TraitSummaryPrompt q (take 100 data))]"
      by (auto simp: feedback_try_block_def dest: extract_trait_summary_events split: prod.splits)
    then show ?thesis by (auto simp: handler_events_def)
  next
    case False
    show ?thesis
    proof (cases "ps \<noteq> [] \<or> as \<noteq> []")
      case True
      with False f show ?thesis
        by (auto simp: feedback_try_block_def intro: direct split: if_splits)
    next
      case none: False
      obtain c tr2 where g: "generate_filter_code env q tr = (c, tr2)"
        by (cases "generate_filter_code env q tr")
      then have tr2: "tr2 = tr @ [LLM (FilterCodePrompt q)]" by (rule generate_filter_code_events)
      have r1: "retrieval_events [LLM (FilterCodePrompt q)]" by (simp add: retrieval_events_def)
      have r2: "\<And>code. retrieval_events [LLM (FilterCodePrompt q), EvalFilter code]"
        by (simp add: retrieval_events_def)
      have viaS: "\<And>sel pre. summarize_selection env q data sel mem focus (tr @ pre) = (r, tr1)
                  \<Longrightarrow> retrieval_events pre \<Longrightarrow> \<exists>evs. tr1 = tr @ evs \<and> handler_events evs"
      proof -
        fix sel pre
        assume s: "summarize_selection env q data sel mem focus (tr @ pre) = (r, tr1)"
          and p: "retrieval_events pre"
        from summarize_selection_events [OF s] obtain evs where
          "tr1 = (tr @ pre) @ evs" "summary_events evs" by blast
        then have "tr1 = tr @ (pre @ evs)" "handler_events (pre @ evs)"
          using p by (simp_all add: handler_after_retrieval summary_is_handler)
        then show "\<exists>evs. tr1 = tr @ evs \<and> handler_events evs" by blast
      qed
      show ?thesis
      proof (cases c)
        case None
        with f False none g tr2 show ?thesis
          by (auto simp: feedback_try_block_def intro: viaS [OF _ r1])
      next
        case (Some code)
        show ?thesis
        proof (cases "code = []")
          case True
          with f False none g tr2 Some show ?thesis
            by (auto simp: feedback_try_block_def intro: viaS [OF _ r1])
        next
          case ne: False
          show ?thesis
          proof (cases "eval_condition env tr2 code data")
            case (Inl e)
            with f False none g Some ne have "tr1 = tr2 @ [EvalFilter code]"
              by (auto simp: feedback_try_block_def)
            with tr2 r2 [of code] show ?thesis
              by (auto intro!: exI [of _ "[LLM (FilterCodePrompt q), EvalFilter code]"]
                               retrieval_is_handler)
          next
            case (Inr keep)
            with f False none g Some ne tr2
            have "summarize_selection env q data (select_entries data keep) mem focus
                    (tr @ [LLM (FilterCodePrompt q), EvalFilter code]) = (r, tr1)"
              by (auto simp: feedback_try_block_def)
            then show ?thesis by (rule viaS [OF _ r2])
          qed
        qed
      qed
    qed
  qed
qed


lemma prepare_feedback_events:
  "prepare_feedback env q c pm am mem tr = (r, tr') \<Longrightarrow>
   \<exists>evs. tr' = tr @ evs \<and> retrieval_events evs"
proof -
  assume p: "prepare_feedback env q c pm am mem tr = (r, tr')"
  let ?tr1 = "tr @ [FirestoreRead c]"
  obtain m tr2 where i: "infer_mentions_and_context env q (turns_of mem) ?tr1 = (m, tr2)"
    by (cases "infer_mentions_and_context env q (turns_of mem) ?tr1")
  then have tr2: "tr2 = ?tr1 @ [LLM (MentionsPrompt (feedback_history (turns_of mem)) q)]"
    by (rule infer_mentions_events)
  obtain qt tr3 where t: "classify_query_type env q tr2 = (qt, tr3)"
    by (cases "classify_query_type env q tr2")
  then have tr3: "tr3 = tr2 @ [LLM (QueryTypePrompt q)]" by (rule classify_query_type_events)
  obtain ff tr4 where f: "classify_feedback_focus env q tr3 = (ff, tr4)"
    by (cases "classify_feedback_focus env q tr3")
  then have tr4: "tr4 = tr3 @ [LLM (FeedbackFocusPrompt q)]"
    by (rule classify_feedback_focus_events)
  have "tr' = ?tr1 \<or> tr' = tr2 \<or> tr' = tr4"
    using p i t f
    by (auto simp: prepare_feedback_def get_feedback_data_from_firestore_def
             split: sum.splits if_splits)
  then show ?thesis
    using tr2 tr3 tr4 by (auto simp: retrieval_events_def)
qed

lemma handle_user_feedback_query_events:
  "handle_user_feedback_query env q c pm am mem tr = (r, tr') \<Longrightarrow>
   \<exists>evs. tr' = tr @ evs \<and> handler_events evs"
proof -
  assume h: "handle_user_feedback_query env q c pm am mem tr = (r, tr')"
  obtain p tr1 where p: "prepare_feedback env q c pm am mem tr = (p, tr1)"
    by (cases "prepare_feedback env q c pm am mem tr")
  from prepare_feedback_events [OF p] obtain e1 where e1: "tr1 = tr @ e1" "retrieval_events e1"
    by blast
  show ?thesis
  proof (cases p)
    case (Inl e)
    with h p e1 show ?thesis
      by (auto simp: handle_user_feedback_query_def intro: retrieval_is_handler)
  next
    case (Inr req)
    show ?thesis
    proof (cases req)
      case EmptyDataset
      with h p e1 Inr show ?thesis
        by (auto simp: handle_user_feedback_query_def intro: retrieval_is_handler)
    next
      case (Ready data ps as qt ff)
      obtain b tr2 where b: "feedback_try_block env q data ps as qt ff mem tr1 = (b, tr2)"
        by (cases "feedback_try_block env q data ps as qt ff mem tr1")
      from feedback_try_block_events [OF b] obtain e2 where e2: "tr2 = tr1 @ e2" "handler_events e2"
        by blast
      from h p Inr Ready b have "tr' = tr2"
        by (auto simp: handle_user_feedback_query_def split: sum.splits)
      with e1 e2 have "tr' = tr @ (e1 @ e2)" "handler_events (e1 @ e2)"
        by (simp_all add: handler_after_retrieval)
      then show ?thesis by blast
    qed
  qed
qed

lemma should_use_chat_history_events:
  "should_use_chat_history env q tr = (u, tr1) \<Longrightarrow> tr1 = tr @ [LLM (UseHistoryPrompt q)]"
  by (auto simp: should_use_chat_history_def dest: chat_trace split: prod.splits sum.splits)

lemma extract_property_mentions_events:
  "extract_property_mentions env q mem tr = (ms, tr1) \<Longrightarrow>
   \<exists>p. tr1 = tr @ [LLM (PropertyMentionsPrompt p)]"
  by (auto simp: extract_property_mentions_def dest: chat_trace split: prod.splits sum.splits)

lemma search_keys_events:
  "search_keys env q keys tr = (r, tr1) \<Longrightarrow> \<exists>evs. tr1 = tr @ evs \<and> retrieval_events evs"
proof (induction keys arbitrary: tr r tr1)
  case Nil
  then show ?case by (simp add: retrieval_events_Nil)
next
  case (Cons key keys)
  show ?case
  proof (cases "key \<in> set (faiss_keys env)")
    case False
    with Cons show ?thesis by simp
  next
    case True
    show ?thesis
    proof (cases "similarity_search env tr key q")
      case (Inl e)
      with True Cons.prems show ?thesis by (auto simp: retrieval_events_def)
    next
      case (Inr results)
      obtain r2 tr2 where s: "search_keys env q keys (tr @ [FaissSearch key q]) = (r2, tr2)"
        by (cases "search_keys env q keys (tr @ [FaissSearch key q])")
      from Cons.IH [OF s] obtain evs where
        evs: "tr2 = (tr @ [FaissSearch key q]) @ evs" "retrieval_events evs" by blast
      from Cons.prems True Inr s have "tr1 = tr2" by (auto split: sum.splits)
      with evs have "tr1 = tr @ (FaissSearch key q # evs)" "retrieval_events (FaissSearch key q # evs)"
        by (simp_all add: retrieval_events_def)
      then show ?thesis by blast
    qed
  qed
qed

lemma search_property_pdfs_events:
  "search_property_pdfs env q pm mem n tr = (r, tr') \<Longrightarrow>
   \<exists>evs. tr' = tr @ evs \<and> retrieval_events evs"
proof -
  assume s: "search_property_pdfs env q pm mem n tr = (r, tr')"
  obtain u tr1 where u: "should_use_chat_history env q tr = (u, tr1)"
    by (cases "should_use_chat_history env q tr")
  then have tr1: "tr1 = tr @ [LLM (UseHistoryPrompt q)]" by (rule should_use_chat_history_events)
  obtain ms tr2 where m: "extract_property_mentions env q (if u then mem else None) tr1 = (ms, tr2)"
    by (cases "extract_property_mentions env q (if u then mem else None) tr1")
  from extract_property_mentions_events [OF m] obtain p where
    tr2: "tr2 = tr1 @ [LLM (PropertyMentionsPrompt p)]" by blast
  let ?keys = "valid_keys_of ms"
  let ?used = "if ?keys \<noteq> [] then ?keys else faiss_keys env"
  obtain k tr3 where k: "search_keys env q ?used tr2 = (k, tr3)"
    by (cases "search_keys env q ?used tr2")
  from search_keys_events [OF k] obtain e3 where e3: "tr3 = tr2 @ e3" "retrieval_events e3"
    by blast
  have "tr' = tr3"
    using s u m k
    by (auto simp: search_property_pdfs_def Let_def split: sum.splits if_splits)
  with tr1 tr2 e3 have "tr' = tr @ ([LLM (UseHistoryPrompt q), LLM (PropertyMentionsPrompt p)] @ e3)"
    "retrieval_events ([LLM (UseHistoryPrompt q), LLM (PropertyMentionsPrompt p)] @ e3)"
    by (simp_all add: retrieval_events_def)
  then show ?thesis by blast
qed

lemma generate_answer_from_context_events:
  "generate_answer_from_context env q ctx tr = (a, tr') \<Longrightarrow>
   \<exists>evs. tr' = tr @ evs \<and> summary_events evs"
  by (auto simp: generate_answer_from_context_def extract_requested_count_via_llm_def
                 summary_events_def
           dest!: chat_trace split: prod.splits sum.splits list.splits)


subsection \<open>What a turn adds to the trace\<close>

lemma summary_events_no_invocations: "summary_events evs \<Longrightarrow> invocations evs = []"
  by (simp add: summary_events_def summary_no_invocations)

lemma stage_le_3: "stage ev \<le> 3"
  by (induction ev rule: stage.induct) simp_all

lemma handler_events_summary:
  "handler_events a \<Longrightarrow> summary_events b \<Longrightarrow> handler_events (a @ b)"
proof -
  assume a: "handler_events a" and b: "summary_events b"
  then have all: "\<forall>ev\<in>set b. stage ev = 3" by (simp add: summary_events_def list_all_iff)
  then have "sorted (map stage b)" by (rule same_stage_sorted)
  then show ?thesis using a all stage_le_3 summary_events_no_invocations [OF b]
    by (auto simp: handler_events_def sorted_append list_all_iff invocations_append
                   answering_no_rewrite)
qed

lemma pass_events_summary:
  "pass_events q mem evs \<Longrightarrow> invocations evs \<noteq> [] \<Longrightarrow> summary_events s
   \<Longrightarrow> pass_events q mem (evs @ s)"
  by (induction q mem evs rule: pass_events.induct) (simp_all add: handler_events_summary)

lemma pass_events_handler:
  "handler_events e \<Longrightarrow> pass_events q mem (SqlConnect None # Invoke (CallSql q pm am mem) # e)"
  "handler_events e \<Longrightarrow> pass_events q mem (Invoke (CallFirestore q pm am mem) # e)"
  "handler_events e \<Longrightarrow> pass_events q mem (Invoke (CallFaiss q pm mem) # e)"
  by simp_all

lemma handler_events_invocations: "handler_events e \<Longrightarrow> invocations e = []"
  by (simp add: handler_events_def)

lemma handler_events_no_rewrites: "handler_events evs \<Longrightarrow> filter rewrites_table evs = []"
  by (auto simp: handler_events_def list_all_iff filter_empty_conv)

lemma dispatch_events:
  "dispatch env q mem dest pm am tr = (r, tr') \<Longrightarrow>
   \<exists>evs. tr' = tr @ evs \<and> pass_events q mem evs
       \<and> invocations evs = backend_chosen env q mem dest pm am tr
       \<and> filter rewrites_table evs =
           (if dest = PStr ''sql'' then [SqlConnect (sql_connect env tr)] else [])
       \<and> ((\<exists>rows. fst r = PList rows) \<longrightarrow> invocations evs \<noteq> [])"
proof -
  assume d: "dispatch env q mem dest pm am tr = (r, tr')"
  consider (sql) "dest = PStr ''sql''" | (fire) "dest = PStr ''firestore''"
    | (faiss) "dest = PStr ''faiss''"
    | (other) "dest \<noteq> PStr ''sql''" "dest \<noteq> PStr ''firestore''" "dest \<noteq> PStr ''faiss''"
    by blast
  then show ?thesis
  proof cases
    case sql
    show ?thesis
    proof (cases "sql_connect env tr")
      case (Some e)
      with d sql have "tr' = tr @ [SqlConnect (Some e)]" "fst r = PStr handler_error"
        by (auto simp: dispatch_def)
      then show ?thesis using sql Some
        by (intro exI [of _ "[SqlConnect (Some e)]"]) (simp add: backend_chosen_def)
    next
      case None
      let ?pre = "[SqlConnect None, Invoke (CallSql q pm am mem)]"
      obtain res tr1 where h: "handle_user_question env q pm am mem 3 (tr @ ?pre) = (res, tr1)"
        by (cases "handle_user_question env q pm am mem 3 (tr @ ?pre)")
      from handle_user_question_events [OF h] obtain e where
        e: "tr1 = (tr @ ?pre) @ e" "retrieval_events e" by blast
      from d sql None h have "tr' = tr1" by (simp add: dispatch_def)
      with e have t: "tr' = tr @ (?pre @ e)" by simp
      note he = retrieval_is_handler [OF e(2)]
      show ?thesis using t sql None pass_events_handler(1) [OF he] handler_events_invocations [OF he]
          handler_events_no_rewrites [OF he]
        by (intro exI [of _ "?pre @ e"]) (simp add: backend_chosen_def)
    qed
  next
    case fire
    let ?pre = "[Invoke (CallFirestore q pm am mem)]"
    obtain res tr1 where h:
      "handle_user_feedback_query env q ''feedback_feedback'' pm am mem (tr @ ?pre) = (res, tr1)"
      by (cases "handle_user_feedback_query env q ''feedback_feedback'' pm am mem (tr @ ?pre)")
    from handle_user_feedback_query_events [OF h] obtain e where
      e: "tr1 = (tr @ ?pre) @ e" "handler_events e" by blast
    from d fire h have "tr' = tr1" by (auto simp: dispatch_def split: sum.splits)
    with e have t: "tr' = tr @ (?pre @ e)" by simp
    show ?thesis using t fire pass_events_handler(2) [OF e(2)] handler_events_invocations [OF e(2)]
        handler_events_no_rewrites [OF e(2)]
      by (intro exI [of _ "?pre @ e"]) (simp add: backend_chosen_def)
  next
    case faiss
    let ?pre = "[Invoke (CallFaiss q pm mem)]"
    obtain res tr1 where h: "search_property_pdfs env q pm mem 3 (tr @ ?pre) = (res, tr1)"
      by (cases "search_property_pdfs env q pm mem 3 (tr @ ?pre)")
    from search_property_pdfs_events [OF h] obtain e where
      e: "tr1 = (tr @ ?pre) @ e" "retrieval_events e" by blast
    have "tr' = tr1 \<or> (\<exists>ctx a. generate_answer_from_context env q ctx tr1 = (a, tr'))"
      using d faiss h
      by (auto simp: dispatch_def split: sum.splits search_result.splits if_splits prod.splits)
    then obtain s where s: "tr' = tr1 @ s" "summary_events s"
      using generate_answer_from_context_events summary_events_Nil by (metis append_Nil2)
    then have t: "tr' = tr @ (?pre @ e @ s)" using e(1) by simp
    note he = handler_events_summary [OF retrieval_is_handler [OF e(2)] s(2)]
    show ?thesis using t faiss pass_events_handler(3) [OF he] handler_events_invocations [OF he]
        handler_events_no_rewrites [OF he]
      by (intro exI [of _ "?pre @ e @ s"]) (simp add: backend_chosen_def)
  next
    case other
    with d have "tr' = tr" "fst r = PStr ''Invalid routing destination.''"
      by (auto simp: dispatch_def)
    with other show ?thesis
      by (intro exI [of _ "[]"]) (simp add: backend_chosen_def)
  qed
qed

lemma route_trace:
  "route_query_with_function_call env q mem tr = (ri, tr1) \<Longrightarrow>
   tr1 = tr @ [LLM (RoutePrompt (route_messages q mem))]"
  by (auto simp: route_query_with_function_call_def split: sum.splits)

lemma run_query_events:
  "run_query env q mem tr = (r, tr') \<Longrightarrow>
   \<exists>evs. tr' = tr @ LLM (RoutePrompt (route_messages q mem)) # evs \<and> pass_events q mem evs
       \<and> (\<forall>rows d. r = Inr (PList rows, d) \<longrightarrow> invocations evs \<noteq> [])"
proof -
  assume rq: "run_query env q mem tr = (r, tr')"
  obtain ri tr1 where ro: "route_query_with_function_call env q mem tr = (ri, tr1)"
    by (cases "route_query_with_function_call env q mem tr")
  then have tr1: "tr1 = tr @ [LLM (RoutePrompt (route_messages q mem))]" by (rule route_trace)
  have "(tr' = tr1 \<and> (\<exists>e. r = Inl e))
      \<or> (\<exists>dest pm am res. dispatch env q mem dest pm am tr1 = (res, tr') \<and> r = Inr res)"
    using rq ro by (auto simp: run_query_def split: sum.splits prod.splits)
  then show ?thesis
  proof
    assume "tr' = tr1 \<and> (\<exists>e. r = Inl e)"
    with tr1 show ?thesis by auto
  next
    assume "\<exists>dest pm am res. dispatch env q mem dest pm am tr1 = (res, tr') \<and> r = Inr res"
    then obtain dest pm am res where
      d: "dispatch env q mem dest pm am tr1 = (res, tr')" and r: "r = Inr res" by blast
    from dispatch_events [OF d] obtain evs where
      evs: "tr' = tr1 @ evs" "pass_events q mem evs"
        "(\<exists>rows. fst res = PList rows) \<longrightarrow> invocations evs \<noteq> []"
      by blast
    with tr1 r show ?thesis by (intro exI [of _ evs]) auto
  qed
qed

lemma final_answer_events:
  "final_answer env q result tr = (a, tr') \<Longrightarrow>
   \<exists>s. tr' = tr @ s \<and> summary_events s \<and> (s \<noteq> [] \<longrightarrow> (\<exists>rows. result = PList rows))"
proof (cases result)
  case (PList rows)
  assume f: "final_answer env q result tr = (a, tr')"
  then have "tr' = snd (generate_natural_answer env q result tr)"
    using PList by (auto simp: final_answer_def split: prod.splits)
  then have "tr' = tr @ [LLM (NaturalAnswerPrompt q (truncate_data result))]"
    by (simp add: snd_generate_natural_answer)
  then show ?thesis using PList by (auto simp: summary_events_def)
qed (auto simp: final_answer_def summary_events_def)

text \<open>A pass and the answer phrased from its result.\<close>

lemma pass_then_answer:
  assumes "run_query env q mem tr = (Inr (res, d), tr1)"
      and "final_answer env q res tr1 = (a, tr2)"
  shows "\<exists>evs. tr2 = tr @ evs \<and> one_pass q mem evs"
proof -
  let ?route = "LLM (RoutePrompt (route_messages q mem))"
  from run_query_events [OF assms(1)] obtain e where
    e: "tr1 = tr @ ?route # e" "pass_events q mem e"
       "\<forall>rows d'. Inr (res, d) = (Inr (PList rows, d') :: exn + pyval \<times> string)
          \<longrightarrow> invocations e \<noteq> []"
    by blast
  from final_answer_events [OF assms(2)] obtain s where
    s: "tr2 = tr1 @ s" "summary_events s" "s \<noteq> [] \<longrightarrow> (\<exists>rows. res = PList rows)" by blast
  have "pass_events q mem (e @ s)"
  proof (cases "s = []")
    case True
    with e(2) show ?thesis by simp
  next
    case False
    with s(3) e(3) have "invocations e \<noteq> []" by auto
    then show ?thesis using e(2) s(2) by (intro pass_events_summary)
  qed
  with e(1) s(1) show ?thesis by (intro exI [of _ "?route # (e @ s)"]) simp
qed

lemma pass_alone:
  assumes "run_query env q mem tr = (r, tr1)"
  shows "\<exists>evs. tr1 = tr @ evs \<and> one_pass q mem evs"
proof -
  from run_query_events [OF assms] obtain e where
    "tr1 = tr @ LLM (RoutePrompt (route_messages q mem)) # e" "pass_events q mem e" by blast
  then show ?thesis by (intro exI [of _ "LLM (RoutePrompt (route_messages q mem)) # e"]) simp
qed

lemma answer_business_events:
  "answer_business env q mem tr = (r, tr') \<Longrightarrow>
   \<exists>first second. tr' = tr @ first @ second \<and> one_pass q mem first
      \<and> (second = [] \<or> (one_pass q mem second \<and> \<not> no_memory mem))"
proof -
  assume ab: "answer_business env q mem tr = (r, tr')"
  obtain r1 tr1 where rq1: "run_query env q mem tr = (r1, tr1)"
    by (cases "run_query env q mem tr")
  from pass_alone [OF rq1] obtain p1 where p1: "tr1 = tr @ p1" "one_pass q mem p1" by blast
  obtain r2 tr2 where rq2: "run_query env q mem tr1 = (r2, tr2)"
    by (cases "run_query env q mem tr1")
  have cases: "tr' = tr1
      \<or> (\<exists>res d a. r1 = Inr (res, d) \<and> final_answer env q res tr1 = (a, tr'))
      \<or> (\<not> no_memory mem \<and> tr' = tr2)
      \<or> (\<not> no_memory mem
           \<and> (\<exists>res d a. r2 = Inr (res, d) \<and> final_answer env q res tr2 = (a, tr')))"
    using ab rq1 rq2
    by (auto simp: answer_business_def split: sum.splits prod.splits if_splits)
  then consider (a) "tr' = tr1"
    | (b) "\<exists>res d a. r1 = Inr (res, d) \<and> final_answer env q res tr1 = (a, tr')"
    | (c) "\<not> no_memory mem" "tr' = tr2"
    | (d) "\<not> no_memory mem"
          "\<exists>res d a. r2 = Inr (res, d) \<and> final_answer env q res tr2 = (a, tr')"
    by blast
  then show ?thesis
  proof cases
    case a
    with p1 show ?thesis by (intro exI [of _ p1] exI [of _ "[]"]) simp
  next
    case b
    then obtain res d a where "run_query env q mem tr = (Inr (res, d), tr1)"
      "final_answer env q res tr1 = (a, tr')" using rq1 by auto
    from pass_then_answer [OF this] obtain evs where "tr' = tr @ evs" "one_pass q mem evs"
      by blast
    then show ?thesis by (intro exI [of _ evs] exI [of _ "[]"]) simp
  next
    case c
    from pass_alone [OF rq2] obtain p2 where "tr2 = tr1 @ p2" "one_pass q mem p2" by blast
    with c p1 show ?thesis by (intro exI [of _ p1] exI [of _ p2]) simp
  next
    case d
    then obtain res dd a where "run_query env q mem tr1 = (Inr (res, dd), tr2)"
      "final_answer env q res tr2 = (a, tr')" using rq2 by auto
    from pass_then_answer [OF this] obtain p2 where "tr' = tr1 @ p2" "one_pass q mem p2"
      by blast
    with d(1) p1 show ?thesis by (intro exI [of _ p1] exI [of _ p2]) simp
  qed
qed

lemma is_general_message_trace:
  "is_general_message env q tr = (g, tr1) \<Longrightarrow> tr1 = tr @ [LLM (IsGeneralPrompt q)]"
  by (auto simp: is_general_message_def dest: chat_trace split: prod.splits sum.splits)

lemma generate_friendly_reply_trace:
  "generate_friendly_reply env q tr = (a, tr1) \<Longrightarrow> tr1 = tr @ [LLM (FriendlyReplyPrompt q)]"
  by (auto simp: generate_friendly_reply_def dest: chat_trace split: prod.splits sum.splits)

lemma handle_routed_query_events:
  "handle_routed_query env q mem tr = (r, tr') \<Longrightarrow>
   \<exists>first second. tr' = tr @ LLM (IsGeneralPrompt q) # first @ second
     \<and> (if fst (is_general_message env q tr)
        then first = [LLM (FriendlyReplyPrompt q)] \<and> second = []
        else one_pass q mem first \<and> (second = [] \<or> (one_pass q mem second \<and> \<not> no_memory mem)))"
proof -
  assume h: "handle_routed_query env q mem tr = (r, tr')"
  obtain g tr1 where g: "is_general_message env q tr = (g, tr1)"
    by (cases "is_general_message env q tr")
  then have tr1: "tr1 = tr @ [LLM (IsGeneralPrompt q)]" by (rule is_general_message_trace)
  show ?thesis
  proof (cases g)
    case True
    obtain a tr2 where f: "generate_friendly_reply env q tr1 = (a, tr2)"
      by (cases "generate_friendly_reply env q tr1")
    then have "tr2 = tr1 @ [LLM (FriendlyReplyPrompt q)]" by (rule generate_friendly_reply_trace)
    moreover have "tr' = tr2" using h g True f by (simp add: handle_routed_query_def)
    ultimately show ?thesis using tr1 g True
      by (intro exI [of _ "[LLM (FriendlyReplyPrompt q)]"] exI [of _ "[]"]) simp
  next
    case False
    then have "answer_business env q mem tr1 = (r, tr')"
      using h g by (simp add: handle_routed_query_def)
    from answer_business_events [OF this] obtain first second where
      "tr' = tr1 @ first @ second" "one_pass q mem first"
      "second = [] \<or> (one_pass q mem second \<and> \<not> no_memory mem)" by blast
    then show ?thesis using tr1 g False
      by (intro exI [of _ first] exI [of _ second]) simp
  qed
qed


section \<open>Claims about the shared state of a turn\<close>

text \<open>The memory a handler is given, and whether it is the tabular handler.\<close>

fun call_memory :: "backend_call \<Rightarrow> memory" where
  "call_memory (CallSql q pm am mem) = mem"
| "call_memory (CallFirestore q pm am mem) = mem"
| "call_memory (CallFaiss q pm mem) = mem"

fun is_sql_call :: "backend_call \<Rightarrow> bool" where
  "is_sql_call (CallSql q pm am mem) = True"
| "is_sql_call c = False"

text \<open>
  A database with no rows for any query, behind a model that calls every message a
  business question, routes it to the tabular backend and writes one query.
\<close>

definition sql_route_reply :: string where
  \<open>sql_route_reply = ''{"destination": "sql"}''\<close>

definition quiet_db_env :: env where
  "quiet_db_env =
     \<lparr> llm = (\<lambda>tr req. case req of
                  IsGeneralPrompt m \<Rightarrow> Inr ''business''
                | RoutePrompt ms \<Rightarrow> Inr sql_route_reply
                | SqlPrompt p \<Rightarrow> Inr ''SELECT city FROM real_estate WHERE beds > 9''
                | _ \<Rightarrow> Inr ''no''),
       json_loads = (\<lambda>s. if s = sql_route_reply then Inr (PDict [(''destination'', PStr ''sql'')])
                          else Inl (ValueError ''Expecting value'')),
       sql_connect = (\<lambda>tr. None),
       sql_exec = (\<lambda>tr q. Inr []),
       firestore_stream = (\<lambda>tr c. Inr []),
       faiss_keys = [],
       similarity_search = (\<lambda>tr k q. Inr []),
       eval_condition = (\<lambda>tr c d. Inr (\<lambda>entry. False)),
       py_repr = (\<lambda>v. ''?''),
       traceback_frames = (\<lambda>e. []) \<rparr>"

lemma pass_events_facts:
  "pass_events q mem evs \<Longrightarrow>
     length (filter rewrites_table evs) \<le> 1
   \<and> length (invocations evs) \<le> 1
   \<and> list_all (\<lambda>c. call_memory c = mem) (invocations evs)
   \<and> length (filter is_sql_call (invocations evs)) \<le> length (filter rewrites_table evs)"
  by (induction q mem evs rule: pass_events.induct)
     (simp_all add: handler_events_no_rewrites handler_events_invocations)

lemma one_pass_facts:
  "one_pass q mem evs \<Longrightarrow>
     length (filter rewrites_table evs) \<le> 1
   \<and> length (invocations evs) \<le> 1
   \<and> list_all (\<lambda>c. call_memory c = mem) (invocations evs)
   \<and> length (filter is_sql_call (invocations evs)) \<le> length (filter rewrites_table evs)"
  by (cases evs) (auto dest: pass_events_facts)

lemma dispatch_rewrites:
  "filter rewrites_table (drop (length tr) (snd (dispatch env q mem dest pm am tr))) =
     (if dest = PStr ''sql'' then [SqlConnect (sql_connect env tr)] else [])"
proof -
  obtain r tr' where d: "dispatch env q mem dest pm am tr = (r, tr')"
    by (cases "dispatch env q mem dest pm am tr")
  from dispatch_events [OF d] obtain evs where "tr' = tr @ evs"
    "filter rewrites_table evs =
       (if dest = PStr ''sql'' then [SqlConnect (sql_connect env tr)] else [])"
    by blast
  with d show ?thesis by simp
qed

text \<open>
  C6, as stated, fails twice. With the focus \<open>property\<close> the summarisation step
  removes the key \<open>agent_feedback\<close> from the entry of the list it is given, so the
  entry is not what it was when generate_feedback_analysis returns. And a turn that is
  routed to the tabular backend calls get_sqlite_conn, which replaces the table
  \<open>real_estate\<close> of the database file: a write to state that outlives the turn and
  is not the transcript.
\<close>

theorem shared_state_changed_counterexample:
  "fst (snd (generate_feedback_analysis quiet_db_env ''what about property 3''
               sample_heap [0] (Some []) ''property'' 120 [])) 0 \<noteq> sample_heap 0
   \<and> fst (snd (generate_feedback_analysis quiet_db_env ''what about property 3''
               sample_heap [0] (Some []) ''property'' 120 [])) 0
       = [(''property_id'', PInt 3), (''agent_id'', PInt 1),
          (''property_feedback'', PStr ''bright rooms'')]
   \<and> snd (handle_routed_query quiet_db_env ''which cities have ten beds'' None []) =
       [LLM (IsGeneralPrompt ''which cities have ten beds''),
        LLM (RoutePrompt [(''user'', ''which cities have ten beds'')]),
        SqlConnect None,
        Invoke (CallSql ''which cities have ten beds'' PNone PNone None),
        LLM (SqlPrompt ''which cities have ten beds''),
        SqlExec ''SELECT city FROM real_estate WHERE beds > 9'' None]
   \<and> filter rewrites_table
        (snd (handle_routed_query quiet_db_env ''which cities have ten beds'' None []))
       = [SqlConnect None]"
  by code_simp

text \<open>
  C6, amended. What a turn of handle_routed_query adds to the trace is the small-talk
  classification and then either the friendly reply or one pass of run_query, followed
  by a second pass only when there is a conversation memory. The database file is
  written by get_sqlite_conn only, which replaces the table \<open>real_estate\<close>: at most
  once in a pass, directly after the routing call, exactly when the destination of
  the pass is \<open>sql\<close>, and never from inside a handler; the tabular handler is invoked
  only after such a call. The conversation memory is handed to every handler as the
  turn received it. generate_feedback_analysis changes the entries of its list in
  place, and only so: with the focus \<open>property\<close> the key \<open>agent_feedback\<close> is removed
  from each of the first max_entries entries, with the focus \<open>agent\<close> the key
  \<open>property_feedback\<close>; with any other focus every entry is as it was, and entries
  beyond max_entries and all other keys are untouched in every case.
\<close>

theorem turn_changes_table_and_fetched_entries:
  "handle_routed_query env q mem tr = (r, tr') \<Longrightarrow>
   generate_feedback_analysis env uq h refs cm focus n tr0 = (r0, h', tr0') \<Longrightarrow>
     (\<exists>first second.
          tr' = tr @ LLM (IsGeneralPrompt q) # first @ second
        \<and> (if fst (is_general_message env q tr)
           then first = [LLM (FriendlyReplyPrompt q)] \<and> second = []
           else one_pass q mem first
                \<and> (second = [] \<or> (one_pass q mem second \<and> \<not> no_memory mem)))
        \<and> length (filter rewrites_table first) \<le> 1
        \<and> length (filter rewrites_table second) \<le> 1
        \<and> length (filter is_sql_call (invocations (first @ second)))
            \<le> length (filter rewrites_table (first @ second))
        \<and> list_all (\<lambda>c. call_memory c = mem) (invocations (first @ second)))
   \<and> filter rewrites_table (drop (length tr1) (snd (dispatch env q mem dest pm am tr1))) =
       (if dest = PStr ''sql'' then [SqlConnect (sql_connect env tr1)] else [])
   \<and> (focus \<noteq> ''property'' \<and> focus \<noteq> ''agent'' \<longrightarrow> h' = h)
   \<and> (focus = ''property'' \<longrightarrow>
        h' a = (if a \<in> set (take n refs) then dict_pop ''agent_feedback'' (h a) else h a))
   \<and> (focus = ''agent'' \<longrightarrow>
        h' a = (if a \<in> set (take n refs) then dict_pop ''property_feedback'' (h a) else h a))
   \<and> (k \<noteq> ''agent_feedback'' \<and> k \<noteq> ''property_feedback''
        \<longrightarrow> map_of (h' a) k = map_of (h a) k)"
proof -
  assume turn: "handle_routed_query env q mem tr = (r, tr')"
  assume summary: "generate_feedback_analysis env uq h refs cm focus n tr0 = (r0, h', tr0')"
  from handle_routed_query_events [OF turn] obtain first second where
    shape: "tr' = tr @ LLM (IsGeneralPrompt q) # first @ second"
      "if fst (is_general_message env q tr)
       then first = [LLM (FriendlyReplyPrompt q)] \<and> second = []
       else one_pass q mem first
            \<and> (second = [] \<or> (one_pass q mem second \<and> \<not> no_memory mem))"
    by blast
  have facts: "length (filter rewrites_table first) \<le> 1
        \<and> length (filter rewrites_table second) \<le> 1
        \<and> length (filter is_sql_call (invocations (first @ second)))
            \<le> length (filter rewrites_table (first @ second))
        \<and> list_all (\<lambda>c. call_memory c = mem) (invocations (first @ second))"
  proof (cases "fst (is_general_message env q tr)")
    case True
    with shape(2) show ?thesis by simp
  next
    case False
    with shape(2) have p1: "one_pass q mem first"
      and p2: "second = [] \<or> one_pass q mem second" by auto
    from p2 show ?thesis
    proof
      assume "second = []"
      with one_pass_facts [OF p1] show ?thesis by simp
    next
      assume "one_pass q mem second"
      from one_pass_facts [OF p1] one_pass_facts [OF this] show ?thesis
        by (simp add: invocations_append)
    qed
  qed
  have turn_part: "\<exists>first second.
          tr' = tr @ LLM (IsGeneralPrompt q) # first @ second
        \<and> (if fst (is_general_message env q tr)
           then first = [LLM (FriendlyReplyPrompt q)] \<and> second = []
           else one_pass q mem first
                \<and> (second = [] \<or> (one_pass q mem second \<and> \<not> no_memory mem)))
        \<and> length (filter rewrites_table first) \<le> 1
        \<and> length (filter rewrites_table second) \<le> 1
        \<and> length (filter is_sql_call (invocations (first @ second)))
            \<le> length (filter rewrites_table (first @ second))
        \<and> list_all (\<lambda>c. call_memory c = mem) (invocations (first @ second))"
    using shape facts by blast
  have heap: "h' = (if focus = ''property'' then pop_each ''agent_feedback'' (take n refs) h
         else if focus = ''agent'' then pop_each ''property_feedback'' (take n refs) h
         else h)"
    using summary by (rule generate_feedback_analysis_heap)
  have frame: "(focus \<noteq> ''property'' \<and> focus \<noteq> ''agent'' \<longrightarrow> h' = h)
   \<and> (focus = ''property'' \<longrightarrow>
        h' a = (if a \<in> set (take n refs) then dict_pop ''agent_feedback'' (h a) else h a))
   \<and> (focus = ''agent'' \<longrightarrow>
        h' a = (if a \<in> set (take n refs) then dict_pop ''property_feedback'' (h a) else h a))
   \<and> (k \<noteq> ''agent_feedback'' \<and> k \<noteq> ''property_feedback''
        \<longrightarrow> map_of (h' a) k = map_of (h a) k)"
    using heap by (simp add: pop_each_at map_of_dict_pop)
  from turn_part dispatch_rewrites [of tr1 env q mem dest pm am] frame
  show ?thesis by blast
qed

theorem turn_changes_table_and_fetched_entries_witness:
  "handle_routed_query quiet_db_env ''which cities have ten beds'' None [] =
     (Inr (PStr ''Sorry, no relevant information found for: **which cities have ten beds**.''),
      [LLM (IsGeneralPrompt ''which cities have ten beds''),
       LLM (RoutePrompt [(''user'', ''which cities have ten beds'')]),
       SqlConnect None,
       Invoke (CallSql ''which cities have ten beds'' PNone PNone None),
       LLM (SqlPrompt ''which cities have ten beds''),
       SqlExec ''SELECT city FROM real_estate WHERE beds > 9'' None])
   \<and> generate_feedback_analysis quiet_db_env ''what about agent 1'' sample_heap [0, 1]
       (Some []) ''agent'' 1 [] =
     (Inr ''no'', (sample_heap (0 := dict_pop ''property_feedback'' sample_entry)),
      [LLM (FeedbackAnalysisPrompt ''what about agent 1'' []
              [dict_pop ''property_feedback'' sample_entry])])
   \<and> one_pass ''which cities have ten beds'' None
       [LLM (RoutePrompt [(''user'', ''which cities have ten beds'')]),
        SqlConnect None,
        Invoke (CallSql ''which cities have ten beds'' PNone PNone None),
        LLM (SqlPrompt ''which cities have ten beds''),
        SqlExec ''SELECT city FROM real_estate WHERE beds > 9'' None]
   \<and> filter rewrites_table
        (drop (length ([] :: trace))
           (snd (dispatch quiet_db_env ''how many'' None (PStr ''sql'') PNone PNone []))) =
       [SqlConnect None]
   \<and> filter rewrites_table
        (drop (length ([] :: trace))
           (snd (dispatch quiet_db_env ''how many'' None (PStr ''firestore'') PNone PNone []))) = []
   \<and> (sample_heap (0 := dict_pop ''property_feedback'' sample_entry)) 1 = sample_heap 1
   \<and> (sample_heap (0 := dict_pop ''property_feedback'' sample_entry)) 0 =
       [(''property_id'', PInt 3), (''agent_id'', PInt 1),
        (''agent_feedback'', PStr ''always on time'')]
   \<and> map_of ((sample_heap (0 := dict_pop ''property_feedback'' sample_entry)) 0) ''agent_id''
       = map_of (sample_heap 0) ''agent_id''"
proof -
  have turn: "handle_routed_query quiet_db_env ''which cities have ten beds'' None [] =
     (Inr (PStr ''Sorry, no relevant information found for: **which cities have ten beds**.''),
      [LLM (IsGeneralPrompt ''which cities have ten beds''),
       LLM (RoutePrompt [(''user'', ''which cities have ten beds'')]),
       SqlConnect None,
       Invoke (CallSql ''which cities have ten beds'' PNone PNone None),
       LLM (SqlPrompt ''which cities have ten beds''),
       SqlExec ''SELECT city FROM real_estate WHERE beds > 9'' None])"
    by code_simp
  have run: "generate_feedback_analysis quiet_db_env ''what about agent 1'' sample_heap [0, 1]
       (Some []) ''agent'' 1 [] =
     (Inr ''no'', (sample_heap (0 := dict_pop ''property_feedback'' sample_entry)),
      [LLM (FeedbackAnalysisPrompt ''what about agent 1'' []
              [dict_pop ''property_feedback'' sample_entry])])"
    by (simp add: generate_feedback_analysis_def chat_def quiet_db_env_def feedback_history_def
                  sample_heap_def strip_def is_space_def)
  have pass: "one_pass ''which cities have ten beds'' None
       [LLM (RoutePrompt [(''user'', ''which cities have ten beds'')]),
        SqlConnect None,
        Invoke (CallSql ''which cities have ten beds'' PNone PNone None),
        LLM (SqlPrompt ''which cities have ten beds''),
        SqlExec ''SELECT city FROM real_estate WHERE beds > 9'' None]"
    by code_simp
  have entry: "(sample_heap (0 := dict_pop ''property_feedback'' sample_entry)) 0 =
       [(''property_id'', PInt 3), (''agent_id'', PInt 1),
        (''agent_feedback'', PStr ''always on time'')]"
    by (simp add: dict_pop_def sample_entry_def)
  have sql: "filter rewrites_table
        (drop (length ([] :: trace))
           (snd (dispatch quiet_db_env ''how many'' None (PStr ''sql'') PNone PNone []))) =
       [SqlConnect None]"
    by code_simp
  have firestore: "filter rewrites_table
        (drop (length ([] :: trace))
           (snd (dispatch quiet_db_env ''how many'' None (PStr ''firestore'') PNone PNone []))) = []"
    by code_simp
  have other: "(sample_heap (0 := dict_pop ''property_feedback'' sample_entry)) 1 = sample_heap 1"
    by simp
  have kept: "map_of ((sample_heap (0 := dict_pop ''property_feedback'' sample_entry)) 0) ''agent_id''
       = map_of (sample_heap 0) ''agent_id''"
    by (simp add: sample_heap_def dict_pop_def sample_entry_def)
  from turn_changes_table_and_fetched_entries
         [OF turn run, where a = 1 and k = "''agent_id''" and ?tr1.0 = "[]"
            and dest = "PStr ''sql''" and pm = PNone and am = PNone]
       turn_changes_table_and_fetched_entries
         [OF turn run, where a = 0 and k = "''agent_id''" and ?tr1.0 = "[]"
            and dest = "PStr ''firestore''" and pm = PNone and am = PNone]
       turn run pass entry sql firestore other kept
  show ?thesis by simp
qed


section \<open>Claims about the mentions of the feedback handler\<close>

lemma all_digits_findall:
  "x \<noteq> [] \<Longrightarrow> list_all is_digit x \<Longrightarrow> re_findall_digits x = [x]"
proof -
  assume ne: "x \<noteq> []" and d: "list_all is_digit x"
  obtain c cs where x: "x = c # cs" using ne by (cases x) auto
  have all: "is_digit c" "\<forall>y\<in>set cs. is_digit y" using d x by (auto simp: list_all_iff)
  then have t: "takeWhile is_digit cs = cs" and d: "dropWhile is_digit cs = []" by simp_all
  have "re_findall_digits (c # cs) = [c # cs]" by (simp add: all(1) t d)
  with x show ?thesis by simp
qed

lemma parse_unsigned_too_long:
  assumes "list_all is_digit x" "int_max_str_digits < length x"
  shows "parse_unsigned x = TooManyDigits (length x)"
proof -
  have ne: "x \<noteq> []" using assms(2) by auto
  have all: "\<forall>c\<in>set x. is_digit c" using assms(1) by (simp add: list_all_iff)
  then have scan: "takeWhile (\<lambda>c. is_digit c \<or> c = CHR ''_'') x = x"
    by (simp add: takeWhile_eq_all_conv)
  have under: "CHR ''_'' \<notin> set x" using all by (auto simp: is_digit_def)
  then have "hd x \<noteq> CHR ''_''" "last x \<noteq> CHR ''_''"
    using ne by (metis hd_in_set, metis last_in_set)
  moreover have "filter is_digit x = x" using all by simp
  ultimately show ?thesis
    unfolding parse_unsigned_def scan Let_def
    using assms(2) no_double_underscore [OF under] by simp
qed

lemma normalize_ids_too_long:
  assumes "list_all is_digit x" "int_max_str_digits < length x"
  shows "normalize_ids (PStr x) =
     Inl (ValueError (''Exceeds the limit (4300 digits) for integer string conversion: '' @
                      ''value has '' @ show_nat (length x) @
                      '' digits; use sys.set_int_max_str_digits() to increase the limit''))"
proof -
  have ne: "x \<noteq> []" using assms(2) by auto
  have s: "strip x = x"
    using assms(1) by (intro strip_no_space) (auto simp: list_all_iff digit_not_space)
  have t: "int_strip x = x"
    using assms(1) by (intro int_strip_no_space) (auto simp: list_all_iff digit_not_int_space)
  obtain c cs where x: "x = c # cs" using ne by (cases x) auto
  then have "is_digit c" using assms(1) by simp
  then have "c \<noteq> CHR ''-''" "c \<noteq> CHR ''+''" by (auto simp: is_digit_def)
  then have "parse_int x = parse_unsigned x" using x by simp
  then have "int_of_str (strip x) = Inl (ValueError (''Exceeds the limit (4300 digits) for integer string conversion: '' @
                      ''value has '' @ show_nat (length x) @
                      '' digits; use sys.set_int_max_str_digits() to increase the limit''))"
    using parse_unsigned_too_long [OF assms] s t by (simp add: int_of_str_def)
  then show ?thesis using all_digits_findall [OF ne assms(1)] by simp
qed

lemma prepare_feedback_ids:
  "prepare_feedback env q c pm am mem tr = (Inr (Ready data ps as qt ff), tr') \<Longrightarrow>
   \<exists>mentions tr2 praw araw.
      infer_mentions_and_context env q (turns_of mem) (tr @ [FirestoreRead c]) = (mentions, tr2)
    \<and> raw_mention pm mentions ''property_id'' = Inr praw
    \<and> raw_mention am mentions ''agent_id'' = Inr araw
    \<and> normalize_ids praw = Inr ps \<and> normalize_ids araw = Inr as"
  by (auto simp: prepare_feedback_def get_feedback_data_from_firestore_def
           split: sum.splits if_splits prod.splits)

lemma replicate_digits: "is_digit c \<Longrightarrow> list_all is_digit (replicate n c)"
  by (induction n) auto

text \<open>A collection with one document, behind a model whose replies name no mention.\<close>

definition feedback_env :: env where
  "feedback_env = failing_db_env
     \<lparr> llm := (\<lambda>tr req. Inr ''filter''),
       firestore_stream := (\<lambda>tr c. Inr [sample_entry]) \<rparr>"

text \<open>
  C9, as stated, fails: a list mention with a string that is no integer literal makes
  the normalisation raise a ValueError, so does a string mention with a run of more
  than 4300 digits, and an explicit mention that is false in Python (the integer 0
  here) gives way to the inferred one.
\<close>

theorem normalisation_not_total_counterexample:
  "normalize_ids (PList [PStr ''property 5'']) =
     Inl (ValueError (''invalid literal for int() with base 10: 'property 5'' @ [CHR 0x27]))
   \<and> raw_mention (PInt 0) (PDict [(''property_id'', PList [PInt 7]), (''agent_id'', PNone)])
        ''property_id'' = Inr (PList [PInt 7])
   \<and> normalize_ids (PStr (replicate 4301 (CHR ''1''))) =
       Inl (ValueError (''Exceeds the limit (4300 digits) for integer string conversion: '' @
                        ''value has 4301 digits; use sys.set_int_max_str_digits() to increase the limit''))"
proof -
  have one: "normalize_ids (PList [PStr ''property 5'']) =
     Inl (ValueError (''invalid literal for int() with base 10: 'property 5'' @ [CHR 0x27]))"
    by code_simp
  have two: "raw_mention (PInt 0) (PDict [(''property_id'', PList [PInt 7]), (''agent_id'', PNone)])
        ''property_id'' = Inr (PList [PInt 7])"
    by code_simp
  have "is_digit (CHR ''1'')" by (simp add: is_digit_def)
  then have digits: "list_all is_digit (replicate 4301 (CHR ''1''))"
    by (rule replicate_digits)
  have "(4300::nat) < 4301" by simp
  then have long: "int_max_str_digits < length (replicate 4301 (CHR ''1''))"
    by (simp only: length_replicate int_max_str_digits_def)
  have shown: "show_nat 4301 = ''4301''"
    by code_simp
  have joined: "''value has '' @ ''4301'' @
                  '' digits; use sys.set_int_max_str_digits() to increase the limit''
                = ''value has 4301 digits; use sys.set_int_max_str_digits() to increase the limit''"
    by simp
  have three: "normalize_ids (PStr (replicate 4301 (CHR ''1''))) =
       Inl (ValueError (''Exceeds the limit (4300 digits) for integer string conversion: '' @
                        ''value has 4301 digits; use sys.set_int_max_str_digits() to increase the limit''))"
    using normalize_ids_too_long [OF digits long] by (simp only: length_replicate shown joined)
  show ?thesis by (rule conjI [OF one conjI [OF two three]])
qed

text \<open>
  C9, amended. In handle_user_feedback_query the identifiers come from the explicitly
  passed mention whenever that mention is true in Python, and from the inferred
  mentions otherwise; they are the normalisation of that value. A string mention whose
  digit runs have at most 4300 digits yields the integers of its maximal digit runs,
  in order; a list whose string elements are all integer literals yields its string
  and integer elements converted to integers; an integer yields the singleton list;
  None, a float and a dictionary yield the empty list.
\<close>

theorem mention_normalisation:
  "(prepare_feedback env q c pm am mem tr = (Inr (Ready data ps as qt ff), tr') \<longrightarrow>
      (\<exists>mentions tr2 praw araw.
          infer_mentions_and_context env q (turns_of mem) (tr @ [FirestoreRead c]) = (mentions, tr2)
        \<and> raw_mention pm mentions ''property_id'' = Inr praw
        \<and> raw_mention am mentions ''agent_id'' = Inr araw
        \<and> normalize_ids praw = Inr ps \<and> normalize_ids araw = Inr as)
      \<and> (truthy pm \<longrightarrow> normalize_ids pm = Inr ps)
      \<and> (truthy am \<longrightarrow> normalize_ids am = Inr as))
   \<and> (truthy mention \<longrightarrow> raw_mention mention inferred key = Inr mention)
   \<and> (\<not> truthy mention \<longrightarrow> raw_mention mention (PDict d) key = Inr (dict_get d key))
   \<and> (list_all (\<lambda>r. length r \<le> int_max_str_digits) (re_findall_digits s)
        \<longrightarrow> normalize_ids (PStr s) = Inr (map digits_value (re_findall_digits s)))
   \<and> digit_runs s (re_findall_digits s)
   \<and> (digit_runs s rs \<longrightarrow> rs = re_findall_digits s)
   \<and> (list_all literal_ok xs
        \<longrightarrow> normalize_ids (PList xs) = Inr (List.map_filter int_of_element xs))
   \<and> normalize_ids (PInt n) = Inr [n]
   \<and> normalize_ids PNone = Inr []
   \<and> normalize_ids (PFloat m e) = Inr []
   \<and> normalize_ids (PDict d) = Inr []"
proof -
  have h: "prepare_feedback env q c pm am mem tr = (Inr (Ready data ps as qt ff), tr') \<longrightarrow>
      (\<exists>mentions tr2 praw araw.
          infer_mentions_and_context env q (turns_of mem) (tr @ [FirestoreRead c]) = (mentions, tr2)
        \<and> raw_mention pm mentions ''property_id'' = Inr praw
        \<and> raw_mention am mentions ''agent_id'' = Inr araw
        \<and> normalize_ids praw = Inr ps \<and> normalize_ids araw = Inr as)
      \<and> (truthy pm \<longrightarrow> normalize_ids pm = Inr ps)
      \<and> (truthy am \<longrightarrow> normalize_ids am = Inr as)"
  proof
    assume p: "prepare_feedback env q c pm am mem tr = (Inr (Ready data ps as qt ff), tr')"
    from prepare_feedback_ids [OF p] obtain mentions tr2 praw araw where
      ids: "infer_mentions_and_context env q (turns_of mem) (tr @ [FirestoreRead c]) = (mentions, tr2)"
        "raw_mention pm mentions ''property_id'' = Inr praw"
        "raw_mention am mentions ''agent_id'' = Inr araw"
        "normalize_ids praw = Inr ps" "normalize_ids araw = Inr as"
      by blast
    have "truthy pm \<longrightarrow> normalize_ids pm = Inr ps"
      using ids(2,4) by (auto simp: raw_mention_def)
    moreover have "truthy am \<longrightarrow> normalize_ids am = Inr as"
      using ids(3,5) by (auto simp: raw_mention_def)
    ultimately show "(\<exists>mentions tr2 praw araw.
          infer_mentions_and_context env q (turns_of mem) (tr @ [FirestoreRead c]) = (mentions, tr2)
        \<and> raw_mention pm mentions ''property_id'' = Inr praw
        \<and> raw_mention am mentions ''agent_id'' = Inr araw
        \<and> normalize_ids praw = Inr ps \<and> normalize_ids araw = Inr as)
      \<and> (truthy pm \<longrightarrow> normalize_ids pm = Inr ps)
      \<and> (truthy am \<longrightarrow> normalize_ids am = Inr as)"
      using ids by blast
  qed
  have a: "truthy mention \<longrightarrow> raw_mention mention inferred key = Inr mention"
    "\<not> truthy mention \<longrightarrow> raw_mention mention (PDict d) key = Inr (dict_get d key)"
    by (simp_all add: raw_mention_def)
  have b: "digit_runs s rs \<longrightarrow> rs = re_findall_digits s"
    using digit_runs_unique by blast
  have c: "list_all literal_ok xs
        \<longrightarrow> normalize_ids (PList xs) = Inr (List.map_filter int_of_element xs)"
    using normalize_ids_list by blast
  have d: "normalize_ids (PInt n) = Inr [n]" "normalize_ids PNone = Inr []"
    "normalize_ids (PFloat m e) = Inr []" "normalize_ids (PDict d) = Inr []"
    by simp_all
  have e: "list_all (\<lambda>r. length r \<le> int_max_str_digits) (re_findall_digits s)
        \<longrightarrow> normalize_ids (PStr s) = Inr (map digits_value (re_findall_digits s))"
    using normalize_ids_str by blast
  from h a b c d e digit_runs_findall [of s] show ?thesis
    by blast
qed


theorem mention_normalisation_witness:
  "prepare_feedback feedback_env ''what do people say'' ''feedback_feedback''
       (PStr ''property 12'') PNone None [] =
     (Inr (Ready [sample_entry] [12] [] ''filter'' ''both''),
      [FirestoreRead ''feedback_feedback'',
       LLM (MentionsPrompt [] ''what do people say''),
       LLM (QueryTypePrompt ''what do people say''),
       LLM (FeedbackFocusPrompt ''what do people say'')])
   \<and> truthy (PStr ''property 12'')
   \<and> normalize_ids (PStr ''property 12'') = Inr [12]
   \<and> raw_mention (PStr ''property 12'') no_mentions ''property_id'' = Inr (PStr ''property 12'')
   \<and> normalize_ids (PStr ''properties 12 and 7b40'') = Inr [12, 7, 40]
   \<and> digit_runs ''properties 12 and 7b40'' [''12'', ''7'', ''40'']
   \<and> list_all literal_ok [PStr '' 5 '', PInt 9, PNone, PStr ''-1_0'']
   \<and> normalize_ids (PList [PStr '' 5 '', PInt 9, PNone, PStr ''-1_0'']) = Inr [5, 9, - 10]"
proof -
  have run: "prepare_feedback feedback_env ''what do people say'' ''feedback_feedback''
       (PStr ''property 12'') PNone None [] =
     (Inr (Ready [sample_entry] [12] [] ''filter'' ''both''),
      [FirestoreRead ''feedback_feedback'',
       LLM (MentionsPrompt [] ''what do people say''),
       LLM (QueryTypePrompt ''what do people say''),
       LLM (FeedbackFocusPrompt ''what do people say'')])"
    by code_simp
  have runs: "re_findall_digits ''properties 12 and 7b40'' = [''12'', ''7'', ''40'']"
    by code_simp
  have short: "list_all (\<lambda>r. length r \<le> int_max_str_digits) [''12'', ''7'', ''40'']"
    by (simp add: int_max_str_digits_def)
  have vals: "map digits_value [''12'', ''7'', ''40''] = [12, 7, 40]"
    by code_simp
  have ok: "list_all literal_ok [PStr '' 5 '', PInt 9, PNone, PStr ''-1_0'']"
    by code_simp
  have conv: "List.map_filter int_of_element [PStr '' 5 '', PInt 9, PNone, PStr ''-1_0'']
                = [5, 9, - 10]"
    by code_simp
  have t: "truthy (PStr ''property 12'')" by simp
  note m = mention_normalisation
         [where env = feedback_env and q = "''what do people say''" and c = "''feedback_feedback''"
            and pm = "PStr ''property 12''" and am = PNone and mem = None and tr = "[]"
            and data = "[sample_entry]" and ps = "[12]" and as = "[]" and qt = "''filter''"
            and ff = "''both''"
            and tr' = "[FirestoreRead ''feedback_feedback'',
                        LLM (MentionsPrompt [] ''what do people say''),
                        LLM (QueryTypePrompt ''what do people say''),
                        LLM (FeedbackFocusPrompt ''what do people say'')]"
            and mention = "PStr ''property 12''" and inferred = no_mentions
            and key = "''property_id''" and s = "''properties 12 and 7b40''"
            and xs = "[PStr '' 5 '', PInt 9, PNone, PStr ''-1_0'']"]
  have 0: "normalize_ids (PStr ''property 12'') = Inr [12]"
    using m run t by blast
  have 1: "raw_mention (PStr ''property 12'') no_mentions ''property_id''
             = Inr (PStr ''property 12'')"
    using m t by blast
  have 2: "normalize_ids (PStr ''properties 12 and 7b40'') = Inr [12, 7, 40]"
    using m runs vals short by metis
  have 3: "digit_runs ''properties 12 and 7b40'' [''12'', ''7'', ''40'']"
    using m runs by metis
  have 4: "normalize_ids (PList [PStr '' 5 '', PInt 9, PNone, PStr ''-1_0'']) = Inr [5, 9, - 10]"
    using m ok conv by metis
  from run t 0 1 2 3 4 ok show ?thesis by blast
qed


section \<open>Claims about the tabular backend\<close>

lemma startswith_append: "startswith (p @ s) p"
  by (induction p) auto

lemma str_contains_prefix: "str_contains p (p @ b)"
proof (cases "p @ b")
  case Nil
  then show ?thesis by simp
next
  case (Cons c cs)
  have "startswith (p @ b) p" by (rule startswith_append)
  with Cons show ?thesis by simp
qed

lemma str_contains_append: "str_contains p (a @ p @ b)"
proof (induction a)
  case Nil
  show ?case using str_contains_prefix by simp
next
  case (Cons x a)
  then show ?case by simp
qed

lemma regeneration_request_holds:
  "str_contains q (regeneration_request q em) \<and> str_contains em (regeneration_request q em)"
proof -
  have "str_contains q (''The following SQL query gave an error:\<newline>\<newline>'' @ q @
           (''\<newline>\<newline>The error was:\<newline>'' @ em @
            ''\<newline>\<newline>Please fix and return a valid query using proper column aliases.''))"
    by (rule str_contains_append)
  moreover have "str_contains em ((''The following SQL query gave an error:\<newline>\<newline>'' @ q @
           ''\<newline>\<newline>The error was:\<newline>'') @ em @
            ''\<newline>\<newline>Please fix and return a valid query using proper column aliases.'')"
    by (rule str_contains_append)
  ultimately show ?thesis by (simp add: regeneration_request_def)
qed

lemma format_exc_holds: "str_contains (str_of_exn e) (format_exc env e)"
proof -
  have "str_contains (str_of_exn e)
          ((''Traceback (most recent call last):\<newline>'' @ traceback_frames env e @
            exn_name e @ '': '') @ str_of_exn e @ ''\<newline>'')"
    by (rule str_contains_append)
  then show ?thesis by (simp add: format_exc_def)
qed

text \<open>
  C1. However handle_user_question is called, its loop executes at most max_retries
  queries and asks for at most max_retries queries. The counter of attempts ends at
  the number of executions that raised. While the counter is below max_retries the
  loop does not stop at a failed execution: whatever follows one in the trace is a
  generation request, and that request is the fixed text around the failed query and
  the traceback of its error, which names the class and the message of the exception.
  When the counter has reached max_retries the function returns None.
\<close>

theorem handle_user_question_bounded_retries:
  "\<exists>use_memory tr1 attempts evs.
     needs_chat_context env uq mem tr = (use_memory, tr1)
   \<and> sql_retry_loop env (prepare_question env use_memory uq pm am mem) max_retries 0 None None tr1
       = (fst (handle_user_question env uq pm am mem max_retries tr), attempts, tr1 @ evs)
   \<and> snd (handle_user_question env uq pm am mem max_retries tr) = tr1 @ evs
   \<and> attempts = int (length (filter is_failed_exec evs))
   \<and> int (length (filter is_exec evs)) \<le> max 0 max_retries
   \<and> int (length (filter is_sql_generation evs)) \<le> max 0 max_retries
   \<and> regenerations_chained env evs
   \<and> (attempts < max_retries \<longrightarrow> evs \<noteq> [] \<and> \<not> is_failed_exec (last evs))
   \<and> (max_retries \<le> attempts
        \<longrightarrow> fst (handle_user_question env uq pm am mem max_retries tr) = PNone)
   \<and> regeneration_request q em =
        ''The following SQL query gave an error:\<newline>\<newline>'' @ q @
        ''\<newline>\<newline>The error was:\<newline>'' @ em @
        ''\<newline>\<newline>Please fix and return a valid query using proper column aliases.''
   \<and> str_contains q (regeneration_request q em)
   \<and> str_contains em (regeneration_request q em)
   \<and> str_contains (str_of_exn e) (format_exc env e)
   \<and> str_contains (exn_name e) (format_exc env e)
   \<and> startswith (format_exc env e) ''Traceback (most recent call last):''"
proof -
  obtain u tr1 where n: "needs_chat_context env uq mem tr = (u, tr1)"
    by (cases "needs_chat_context env uq mem tr")
  obtain res a tr2 where l:
    "sql_retry_loop env (prepare_question env u uq pm am mem) max_retries 0 None None tr1
       = (res, a, tr2)"
    by (cases "sql_retry_loop env (prepare_question env u uq pm am mem) max_retries 0 None None tr1")
  have h: "handle_user_question env uq pm am mem max_retries tr = (res, tr2)"
    using n l by (simp add: handle_user_question_def)
  from sql_retry_loop_trace [OF l] obtain evs where
    "tr2 = tr1 @ evs" "a = int (length (filter is_failed_exec evs))"
    "int (length (filter is_exec evs)) \<le> max 0 max_retries"
    "int (length (filter is_sql_generation evs)) \<le> max 0 max_retries"
    "regenerations_chained env evs" "max_retries \<le> a \<longrightarrow> res = PNone"
    "a < max_retries \<longrightarrow> evs \<noteq> [] \<and> \<not> is_failed_exec (last evs)"
    by auto
  with n l h have first: "\<exists>use_memory tr1 attempts evs.
     needs_chat_context env uq mem tr = (use_memory, tr1)
   \<and> sql_retry_loop env (prepare_question env use_memory uq pm am mem) max_retries 0 None None tr1
       = (fst (handle_user_question env uq pm am mem max_retries tr), attempts, tr1 @ evs)
   \<and> snd (handle_user_question env uq pm am mem max_retries tr) = tr1 @ evs
   \<and> attempts = int (length (filter is_failed_exec evs))
   \<and> int (length (filter is_exec evs)) \<le> max 0 max_retries
   \<and> int (length (filter is_sql_generation evs)) \<le> max 0 max_retries
   \<and> regenerations_chained env evs
   \<and> (attempts < max_retries \<longrightarrow> evs \<noteq> [] \<and> \<not> is_failed_exec (last evs))
   \<and> (max_retries \<le> attempts
        \<longrightarrow> fst (handle_user_question env uq pm am mem max_retries tr) = PNone)"
    by auto
  have name: "str_contains (exn_name e) (format_exc env e)"
  proof -
    have "str_contains (exn_name e)
            ((''Traceback (most recent call last):\<newline>'' @ traceback_frames env e) @
             exn_name e @ ('': '' @ str_of_exn e @ ''\<newline>''))"
      by (rule str_contains_append)
    then show ?thesis by (simp add: format_exc_def)
  qed
  have head: "startswith (format_exc env e) ''Traceback (most recent call last):''"
    by (simp add: format_exc_def)
  have shape: "regeneration_request q em =
        ''The following SQL query gave an error:\<newline>\<newline>'' @ q @
        ''\<newline>\<newline>The error was:\<newline>'' @ em @
        ''\<newline>\<newline>Please fix and return a valid query using proper column aliases.''"
    by (simp add: regeneration_request_def)
  from first shape regeneration_request_holds [of q em] format_exc_holds [of e env] name head
  show ?thesis by blast
qed


text \<open>The failure of the sample database and the request that follows it, letter by letter.\<close>

definition sample_failure :: exn where
  "sample_failure = ExternalError ''pandas.errors.DatabaseError''
                      ''Execution failed on sql: no such column: nope''"

definition sample_regeneration :: string where
  "sample_regeneration =
     ''The following SQL query gave an error:\<newline>\<newline>SELECT nope FROM real_estate\<newline>\<newline>'' @
     ''The error was:\<newline>Traceback (most recent call last):\<newline>'' @
     ''  File text_to_sql.py, line 153, in handle_user_question\<newline>'' @
     ''pandas.errors.DatabaseError: Execution failed on sql: no such column: nope\<newline>'' @
     ''\<newline>\<newline>Please fix and return a valid query using proper column aliases.''"

theorem handle_user_question_bounded_retries_witness:
  "handle_user_question failing_db_env ''q'' PNone PNone None 3 [] =
     (PNone,
      [LLM (SqlPrompt ''q''),
       SqlExec ''SELECT nope FROM real_estate'' (Some sample_failure),
       LLM (SqlPrompt sample_regeneration),
       SqlExec ''SELECT nope FROM real_estate'' (Some sample_failure),
       LLM (SqlPrompt sample_regeneration),
       SqlExec ''SELECT nope FROM real_estate'' (Some sample_failure)])
   \<and> (3::int) \<le> int (length (filter is_failed_exec
          (snd (handle_user_question failing_db_env ''q'' PNone PNone None 3 []))))
   \<and> fst (handle_user_question failing_db_env ''q'' PNone PNone None 3 []) = PNone
   \<and> str_contains ''SELECT nope FROM real_estate'' sample_regeneration
   \<and> str_contains ''no such column: nope'' sample_regeneration"
proof -
  have run: "handle_user_question failing_db_env ''q'' PNone PNone None 3 [] =
     (PNone,
      [LLM (SqlPrompt ''q''),
       SqlExec ''SELECT nope FROM real_estate'' (Some sample_failure),
       LLM (SqlPrompt sample_regeneration),
       SqlExec ''SELECT nope FROM real_estate'' (Some sample_failure),
       LLM (SqlPrompt sample_regeneration),
       SqlExec ''SELECT nope FROM real_estate'' (Some sample_failure)])"
    by code_simp
  have held: "str_contains ''SELECT nope FROM real_estate'' sample_regeneration"
    "str_contains ''no such column: nope'' sample_regeneration"
    by code_simp+
  from handle_user_question_bounded_retries
         [where env = failing_db_env and uq = "''q''" and mem = None and tr = "[]"
            and pm = PNone and am = PNone and max_retries = 3] run held
  show ?thesis by simp
qed

text \<open>A model whose reply to a request for SQL is blank.\<close>

definition blank_env :: env where
  "blank_env = failing_db_env \<lparr> llm := (\<lambda>tr req. Inr ''   '') \<rparr>"

text \<open>
  C8, as stated, fails: a blank reply is a generated text that starts with neither
  \<open>select\<close> nor \<open>with\<close>, and handle_user_question answers it with
  \<open>Failed to generate SQL.\<close>, not with the capability message.
\<close>

theorem blank_reply_counterexample:
  "\<not> looks_like_sql (strip ''   '')
   \<and> handle_user_question blank_env ''how many sales'' PNone PNone None 3 [] =
       (PStr ''Failed to generate SQL.'', [LLM (SqlPrompt ''how many sales'')])
   \<and> PStr ''Failed to generate SQL.'' \<noteq> PStr capability_message"
  by code_simp

text \<open>
  C8, amended. A generated text whose stripped, lower-cased form starts with neither
  \<open>select\<close> nor \<open>with\<close> is not executed: every query that handle_user_question hands
  to the database passes that test. An iteration of the loop that is given such a text
  returns without an execution, with the fixed capability message when the text is not
  empty and with \<open>Failed to generate SQL.\<close> when it is empty (a blank reply or a
  failed generation).
\<close>

theorem only_select_or_with_is_executed:
  "list_all looks_like_sql
     (executed (drop (length tr) (snd (handle_user_question env uq pm am mem max_retries tr))))
   \<and> (attempt < max_retries \<and> generate_sql_query env uq sq em tr = (q, tr1)
        \<and> q \<noteq> [] \<and> \<not> looks_like_sql q
      \<longrightarrow> sql_retry_loop env uq max_retries attempt sq em tr
            = (PStr capability_message, attempt, tr1))
   \<and> (attempt < max_retries \<and> generate_sql_query env uq sq em tr = ([], tr1)
      \<longrightarrow> sql_retry_loop env uq max_retries attempt sq em tr
            = (PStr ''Failed to generate SQL.'', attempt, tr1))
   \<and> \<not> looks_like_sql []"
proof -
  obtain u tr1' where n: "needs_chat_context env uq mem tr = (u, tr1')"
    by (cases "needs_chat_context env uq mem tr")
  obtain res a tr2 where l:
    "sql_retry_loop env (prepare_question env u uq pm am mem) max_retries 0 None None tr1'
       = (res, a, tr2)"
    by (cases "sql_retry_loop env (prepare_question env u uq pm am mem) max_retries 0 None None tr1'")
  have h: "handle_user_question env uq pm am mem max_retries tr = (res, tr2)"
    using n l by (simp add: handle_user_question_def)
  from sql_retry_loop_trace [OF l] obtain evs where
    evs: "tr2 = tr1' @ evs" "list_all looks_like_sql (executed evs)"
    by auto
  have "list_all looks_like_sql (executed (drop (length tr) tr2))"
    using needs_chat_context_trace [OF n] evs by auto
  moreover have "\<not> looks_like_sql []"
    by (simp add: looks_like_sql_def strip_def lower_def)
  ultimately show ?thesis
    using h by (simp add: sql_retry_loop.simps)
qed

theorem only_select_or_with_is_executed_witness:
  "\<not> looks_like_sql ''DROP TABLE real_estate''
   \<and> handle_user_question dropping_env ''clear the table'' PNone PNone None 3 [] =
       (PStr capability_message, [LLM (SqlPrompt ''clear the table'')])
   \<and> sql_retry_loop dropping_env ''clear the table'' 3 0 None None [] =
       (PStr capability_message, 0, [LLM (SqlPrompt ''clear the table'')])
   \<and> sql_retry_loop blank_env ''how many sales'' 3 0 None None [] =
       (PStr ''Failed to generate SQL.'', 0, [LLM (SqlPrompt ''how many sales'')])"
proof -
  have no: "\<not> looks_like_sql ''DROP TABLE real_estate''"
    by code_simp
  have gen: "generate_sql_query dropping_env ''clear the table'' None None [] =
               (''DROP TABLE real_estate'', [LLM (SqlPrompt ''clear the table'')])"
    by code_simp
  have blank: "generate_sql_query blank_env ''how many sales'' None None [] =
               ([], [LLM (SqlPrompt ''how many sales'')])"
    by code_simp
  have run: "handle_user_question dropping_env ''clear the table'' PNone PNone None 3 [] =
       (PStr capability_message, [LLM (SqlPrompt ''clear the table'')])"
    by code_simp
  from only_select_or_with_is_executed
         [where env = dropping_env and uq = "''clear the table''" and mem = None and tr = "[]"
            and pm = PNone and am = PNone and max_retries = 3 and attempt = 0
            and sq = None and em = None and q = "''DROP TABLE real_estate''"
            and ?tr1.0 = "[LLM (SqlPrompt ''clear the table'')]"]
       only_select_or_with_is_executed
         [where env = blank_env and uq = "''how many sales''" and mem = None and tr = "[]"
            and pm = PNone and am = PNone and max_retries = 3 and attempt = 0
            and sq = None and em = None and q = "''x''"
            and ?tr1.0 = "[LLM (SqlPrompt ''how many sales'')]"]
       no gen blank run
  show ?thesis by simp
qed

end
